theory Spec2Isabelle
  imports Main "HOL-Library.AList"
begin

section \<open>The LMM controller: data and external collaborators\<close>

text \<open>
  The controller of \<^verbatim>\<open>src/llmcontroller.py\<close> talks to a Kubernetes cluster, probes
  HTTP health endpoints, sleeps and logs. These effects are made explicit: the state of
  the outside world is a value of an arbitrary type \<open>'w\<close>, every external call maps a
  world to an outcome and a new world, and every call the controller makes is appended
  to a trace of events.

  An external call either returns a value or raises. The Kubernetes client raises
  \<^verbatim>\<open>ApiException\<close> (the exception the controller's handlers name); \<^verbatim>\<open>requests.get\<close>
  raises one of the exceptions of \<^verbatim>\<open>requests\<close>.
\<close>

datatype 'a outcome = Raises | Returns 'a

datatype py_error =
    ApiException
  | AttributeError string
  | KeyError string
  | ValueError string
  | FileNotFoundError
  | TypeError

text \<open>
  What the controller reads of a deployment object: \<^verbatim>\<open>metadata.name\<close>,
  \<^verbatim>\<open>metadata.labels\<close>, \<^verbatim>\<open>spec.replicas\<close> and \<^verbatim>\<open>status.available_replicas\<close>, which is
  \<^verbatim>\<open>None\<close> for a workload that reports no available replica.
\<close>

record deployment =
  metadata_name :: string
  labels :: "(string \<times> string) list"
  replicas :: int
  available_replicas :: "int option"

record pod =
  pod_ip :: "string option"

text \<open>
  The body of \<^verbatim>\<open>create_namespaced_deployment\<close>: the name \<^verbatim>\<open>lfr-<source>\<close>, the replica
  count and the \<^verbatim>\<open>source\<close> label; the other fields of the body are constants.
\<close>

record deployment_body =
  body_name :: string
  body_replicas :: int
  body_source :: string

text \<open>
  The two bodies given to \<^verbatim>\<open>patch_namespaced_deployment\<close>: the deployment read before,
  with its replica count updated (scaling), and the \<^verbatim>\<open>restartedAt\<close> annotation (a
  forced rolling restart; the time stamp is not modelled).
\<close>

datatype patch = PatchDeployment deployment | PatchRestartedAt

datatype level = INFO | WARNING | ERROR

datatype event =
    ListDeployment
  | CreateDeployment deployment_body
  | ReadDeployment string
  | PatchNamespacedDeployment string patch
  | DeleteDeployment string
  | ListPod string
  | HttpGet string
  | Sleep nat
  | Log level string
  | SetDeploymentCount nat
  | SetHealthStatus string bool

text \<open>
  The external collaborators: the calls of the Kubernetes client and \<^verbatim>\<open>requests.get\<close>.
  The namespace, a constant argument of every cluster call, is left out.
\<close>

record 'w env =
  list_namespaced_deployment :: "'w \<Rightarrow> deployment list outcome \<times> 'w"
  create_namespaced_deployment :: "deployment_body \<Rightarrow> 'w \<Rightarrow> unit outcome \<times> 'w"
  read_namespaced_deployment :: "string \<Rightarrow> 'w \<Rightarrow> deployment outcome \<times> 'w"
  patch_namespaced_deployment :: "string \<Rightarrow> patch \<Rightarrow> 'w \<Rightarrow> unit outcome \<times> 'w"
  delete_namespaced_deployment :: "string \<Rightarrow> 'w \<Rightarrow> unit outcome \<times> 'w"
  list_namespaced_pod :: "string \<Rightarrow> 'w \<Rightarrow> pod list outcome \<times> 'w"
  requests_get :: "string \<Rightarrow> 'w \<Rightarrow> int outcome \<times> 'w"

record 'w state =
  world :: 'w
  trace :: "event list"

definition emit :: "event \<Rightarrow> 'w state \<Rightarrow> 'w state" where
  "emit e st = st\<lparr>trace := trace st @ [e]\<rparr>"

text \<open>An external call: the event is recorded, the world answers and moves on.\<close>

definition call :: "event \<Rightarrow> ('w \<Rightarrow> 'a outcome \<times> 'w) \<Rightarrow> 'w state \<Rightarrow> 'a outcome \<times> 'w state" where
  "call e f st = (case f (world st) of (r, w) \<Rightarrow> (r, \<lparr>world = w, trace = trace st @ [e]\<rparr>))"

text \<open>
  \<^verbatim>\<open>logging_metrics.log(component, level, message)\<close>; the message is recorded without
  the values interpolated into it.
\<close>

definition log :: "level \<Rightarrow> string \<Rightarrow> 'w state \<Rightarrow> 'w state" where
  "log l msg st = emit (Log l msg) st"

definition sleep :: "nat \<Rightarrow> 'w state \<Rightarrow> 'w state" where
  "sleep n st = emit (Sleep n) st"

definition lfr_name :: "string \<Rightarrow> string" where
  "lfr_name source_name = ''lfr-'' @ source_name"

section \<open>Creating, scaling and deleting a deployment\<close>

text \<open>
  Each of the three methods logs an \<^verbatim>\<open>ApiException\<close> and raises it again.
\<close>

definition create_lfr_deployment ::
  "'w env \<Rightarrow> string \<Rightarrow> int \<Rightarrow> 'w state \<Rightarrow> (py_error + unit) \<times> 'w state" where
  "create_lfr_deployment env source_name n st =
     (let deployment = \<lparr>body_name = lfr_name source_name, body_replicas = n,
                        body_source = source_name\<rparr>
      in case call (CreateDeployment deployment) (create_namespaced_deployment env deployment) st of
           (Returns _, st1) \<Rightarrow> (Inr (), log INFO ''Created LFR deployment for source'' st1)
         | (Raises, st1) \<Rightarrow> (Inl ApiException, log ERROR ''Failed to create deployment'' st1))"

definition scale_lfr_deployment ::
  "'w env \<Rightarrow> string \<Rightarrow> int \<Rightarrow> 'w state \<Rightarrow> (py_error + unit) \<times> 'w state" where
  "scale_lfr_deployment env source_name n st =
     (case call (ReadDeployment (lfr_name source_name))
                (read_namespaced_deployment env (lfr_name source_name)) st of
        (Raises, st1) \<Rightarrow> (Inl ApiException, log ERROR ''Failed to scale deployment'' st1)
      | (Returns deployment, st1) \<Rightarrow>
          (let body = PatchDeployment (deployment\<lparr>replicas := n\<rparr>)
           in case call (PatchNamespacedDeployment (lfr_name source_name) body)
                        (patch_namespaced_deployment env (lfr_name source_name) body) st1 of
                (Returns _, st2) \<Rightarrow> (Inr (), log INFO ''Scaled LFR deployment'' st2)
              | (Raises, st2) \<Rightarrow> (Inl ApiException, log ERROR ''Failed to scale deployment'' st2)))"

definition delete_lfr_deployment ::
  "'w env \<Rightarrow> string \<Rightarrow> 'w state \<Rightarrow> (py_error + unit) \<times> 'w state" where
  "delete_lfr_deployment env source_name st =
     (case call (DeleteDeployment (lfr_name source_name))
                (delete_namespaced_deployment env (lfr_name source_name)) st of
        (Returns _, st1) \<Rightarrow> (Inr (), log INFO ''Deleted LFR deployment for source'' st1)
      | (Raises, st1) \<Rightarrow> (Inl ApiException, log ERROR ''Failed to delete deployment'' st1))"

section \<open>The reconciliation loop\<close>

text \<open>
  An entry of \<^verbatim>\<open>config['log_sources']\<close> with the fields the loop reads: \<^verbatim>\<open>name\<close>,
  \<^verbatim>\<open>enabled\<close> and \<^verbatim>\<open>instances.min\<close>.
\<close>

record log_source =
  name :: string
  enabled :: bool
  instances_min :: int

text \<open>
  \<^verbatim>\<open>current_sources\<close> is the dictionary from the \<^verbatim>\<open>source\<close> label to the deployment,
  built once before the loop; the loop only asks whether a name is one of its keys.
\<close>

definition is_key :: "string \<Rightarrow> (string \<times> 'a) list \<Rightarrow> bool" where
  "is_key k d = (k \<in> set (map fst d))"

text \<open>
  The loop over the configured sources (lines 324 to 344). An exception raised by one of
  the methods leaves the loop. For a source that is enabled and observed the loop calls
  \<^verbatim>\<open>self.check_scaling_needs\<close> (line 336). The class defines no such method, and no
  \<^verbatim>\<open>get_current_replicas\<close> either: the call raises \<^verbatim>\<open>AttributeError\<close>, and the lines
  that read the replica count and scale the deployment are never reached.
\<close>

fun reconcile_loop ::
  "'w env \<Rightarrow> (string \<times> deployment) list \<Rightarrow> log_source list \<Rightarrow> 'w state
     \<Rightarrow> (py_error + unit) \<times> 'w state" where
  "reconcile_loop env current_sources [] st = (Inr (), st)"
| "reconcile_loop env current_sources (source # rest) st =
     (let source_name = name source in
      if enabled source then
        if \<not> is_key source_name current_sources then
          (case create_lfr_deployment env source_name (instances_min source) st of
             (Inl e, st1) \<Rightarrow> (Inl e, st1)
           | (Inr _, st1) \<Rightarrow> reconcile_loop env current_sources rest st1)
        else (Inl (AttributeError ''check_scaling_needs''), st)
      else
        if is_key source_name current_sources then
          (case delete_lfr_deployment env source_name st of
             (Inl e, st1) \<Rightarrow> (Inl e, st1)
           | (Inr _, st1) \<Rightarrow> reconcile_loop env current_sources rest st1)
        else reconcile_loop env current_sources rest st)"

subsection \<open>The rule table of the specification\<close>

text \<open>
  The specification describes reconciliation as a function from the desired and the
  observed state to a sequence of actions, which are then executed one after the other.
  The following definitions follow the specification's words, with the scaling predicate
  and the current replica count as the parameters that the specification leaves open;
  they are compared with \<open>reconcile_loop\<close> below.
\<close>

datatype action = Create string int | Scale string int | Delete string

fun action_name :: "action \<Rightarrow> string" where
  "action_name (Create n r) = n"
| "action_name (Scale n r) = n"
| "action_name (Delete n) = n"

definition rule_table ::
  "(string \<Rightarrow> bool) \<Rightarrow> (string \<Rightarrow> int) \<Rightarrow> (string \<times> deployment) list \<Rightarrow> log_source
     \<Rightarrow> action list" where
  "rule_table needsScaleUp currentReplicas observed s =
     (if enabled s \<and> \<not> is_key (name s) observed then [Create (name s) (instances_min s)]
      else if enabled s \<and> is_key (name s) observed then
        (if needsScaleUp (name s) then [Scale (name s) (currentReplicas (name s) + 1)] else [])
      else if \<not> enabled s \<and> is_key (name s) observed then [Delete (name s)]
      else [])"

definition reconcile ::
  "(string \<Rightarrow> bool) \<Rightarrow> (string \<Rightarrow> int) \<Rightarrow> log_source list \<Rightarrow> (string \<times> deployment) list
     \<Rightarrow> action list" where
  "reconcile needsScaleUp currentReplicas desired observed =
     concat (map (rule_table needsScaleUp currentReplicas observed) desired)"

fun execute :: "'w env \<Rightarrow> action \<Rightarrow> 'w state \<Rightarrow> (py_error + unit) \<times> 'w state" where
  "execute env (Create n r) st = create_lfr_deployment env n r st"
| "execute env (Scale n r) st = scale_lfr_deployment env n r st"
| "execute env (Delete n) st = delete_lfr_deployment env n st"

fun run_actions :: "'w env \<Rightarrow> action list \<Rightarrow> 'w state \<Rightarrow> (py_error + unit) \<times> 'w state" where
  "run_actions env [] st = (Inr (), st)"
| "run_actions env (a # as) st =
     (case execute env a st of
        (Inl e, st1) \<Rightarrow> (Inl e, st1)
      | (Inr _, st1) \<Rightarrow> run_actions env as st1)"


section \<open>Health evaluation\<close>

text \<open>
  \<^verbatim>\<open>_check_endpoint_health\<close>: the pods of the source are listed and every pod whose
  \<^verbatim>\<open>pod_ip\<close> is truthy (neither \<^verbatim>\<open>None\<close> nor the empty string) is probed in turn. The
  first status other than 200 returns \<^verbatim>\<open>False\<close> at once; any exception, of the listing
  or of a probe, is logged and returns \<^verbatim>\<open>False\<close>.
\<close>

definition has_ip :: "pod \<Rightarrow> bool" where
  "has_ip p = (case pod_ip p of None \<Rightarrow> False | Some ip \<Rightarrow> ip \<noteq> [])"

definition health_url :: "pod \<Rightarrow> string" where
  "health_url p = ''http://'' @ (case pod_ip p of None \<Rightarrow> [] | Some ip \<Rightarrow> ip) @ '':8080/health''"

definition pod_selector :: "string \<Rightarrow> string" where
  "pod_selector source_name = ''app=lfr,source='' @ source_name"

fun probe_pods :: "'w env \<Rightarrow> pod list \<Rightarrow> 'w state \<Rightarrow> bool \<times> 'w state" where
  "probe_pods env [] st = (True, st)"
| "probe_pods env (p # ps) st =
     (if has_ip p then
        (case call (HttpGet (health_url p)) (requests_get env (health_url p)) st of
           (Raises, st1) \<Rightarrow> (False, log ERROR ''Health check failed'' st1)
         | (Returns status_code, st1) \<Rightarrow>
             if status_code \<noteq> 200 then (False, st1) else probe_pods env ps st1)
      else probe_pods env ps st)"

definition check_endpoint_health :: "'w env \<Rightarrow> string \<Rightarrow> 'w state \<Rightarrow> bool \<times> 'w state" where
  "check_endpoint_health env source_name st =
     (case call (ListPod (pod_selector source_name))
                (list_namespaced_pod env (pod_selector source_name)) st of
        (Raises, st1) \<Rightarrow> (False, log ERROR ''Health check failed'' st1)
      | (Returns pods, st1) \<Rightarrow> probe_pods env pods st1)"

text \<open>
  \<^verbatim>\<open>monitor_lfr_health\<close>. The dictionary \<^verbatim>\<open>health_status\<close> keeps insertion order and is an
  association list updated in place. The loop returns the exception that left it, if any,
  with the dictionary as it was then, so that the handler of \<^verbatim>\<open>ApiException\<close> can return
  it. A deployment without a \<^verbatim>\<open>source\<close> label raises \<^verbatim>\<open>KeyError\<close>, which no handler of
  this method catches.
\<close>

fun monitor_loop ::
  "'w env \<Rightarrow> deployment list \<Rightarrow> (string \<times> bool) list \<Rightarrow> 'w state
     \<Rightarrow> py_error option \<times> (string \<times> bool) list \<times> 'w state" where
  "monitor_loop env [] health_status st = (None, health_status, st)"
| "monitor_loop env (deployment # rest) health_status st =
     (case map_of (labels deployment) ''source'' of
        None \<Rightarrow> (Some (KeyError ''source''), health_status, st)
      | Some source_name \<Rightarrow>
          (let desired_replicas = replicas deployment;
               available = available_replicas deployment;
               deployment_healthy = (available \<noteq> None \<and> available = Some desired_replicas)
           in case check_endpoint_health env source_name st of
                (endpoint_healthy, st1) \<Rightarrow>
                  (let verdict = (deployment_healthy \<and> endpoint_healthy)
                   in monitor_loop env rest (AList.update source_name verdict health_status)
                        (emit (SetHealthStatus source_name verdict) st1))))"

definition monitor_lfr_health ::
  "'w env \<Rightarrow> 'w state \<Rightarrow> (py_error + (string \<times> bool) list) \<times> 'w state" where
  "monitor_lfr_health env st =
     (case (case call ListDeployment (list_namespaced_deployment env) st of
              (Raises, st1) \<Rightarrow> (Some ApiException, [], st1)
            | (Returns deployments, st1) \<Rightarrow> monitor_loop env deployments [] st1) of
        (None, health_status, st2) \<Rightarrow> (Inr health_status, st2)
      | (Some ApiException, health_status, st2) \<Rightarrow>
          (Inr health_status, log ERROR ''Failed to check deployment health'' st2)
      | (Some e, health_status, st2) \<Rightarrow> (Inl e, st2))"

subsection \<open>The endpoint verdict in the specification's words\<close>

text \<open>
  The specification gives the endpoint verdict as a conjunction over every member with an
  address of the result of probing it, an error counting as unhealthy. \<open>probe_each\<close>
  probes every address in turn, without stopping, and \<open>endpointHealthy\<close> is the
  conjunction; a failed listing of the members is unhealthy.
\<close>

fun probe_each :: "'w env \<Rightarrow> pod list \<Rightarrow> 'w \<Rightarrow> int outcome list" where
  "probe_each env [] w = []"
| "probe_each env (p # ps) w =
     (case requests_get env (health_url p) w of (r, w1) \<Rightarrow> r # probe_each env ps w1)"

definition endpointHealthy :: "'w env \<Rightarrow> string \<Rightarrow> 'w \<Rightarrow> bool" where
  "endpointHealthy env source_name w =
     (case list_namespaced_pod env (pod_selector source_name) w of
        (Raises, w1) \<Rightarrow> False
      | (Returns pods, w1) \<Rightarrow> list_all (\<lambda>r. r = Returns 200) (probe_each env (filter has_ip pods) w1))"

text \<open>
  The workload verdict of the specification: the available replica count equals the
  desired one. A count that is absent equals no number.
\<close>

definition workloadHealthy :: "deployment \<Rightarrow> bool" where
  "workloadHealthy d = (available_replicas d = Some (replicas d))"

text \<open>
  The health evaluation probes the members of the listed deployments one deployment
  after the other. \<open>evaluation_world\<close> is the world in which the deployment that
  follows the deployments \<open>ds\<close> is evaluated, when the first one is evaluated in \<open>w\<close>:
  the world that the endpoint checks of \<open>ds\<close> leave.
\<close>

fun evaluation_world :: "'w env \<Rightarrow> deployment list \<Rightarrow> 'w \<Rightarrow> 'w" where
  "evaluation_world env [] w = w"
| "evaluation_world env (d # ds) w =
     (case map_of (labels d) ''source'' of
        None \<Rightarrow> w
      | Some source_name \<Rightarrow>
          evaluation_world env ds
            (world (snd (check_endpoint_health env source_name \<lparr>world = w, trace = []\<rparr>))))"

section \<open>Recovery of an unhealthy deployment\<close>

text \<open>
  \<^verbatim>\<open>_handle_unhealthy_deployment\<close> returns nothing; the model returns which of its two
  exits was taken: \<open>Healthy\<close> for the \<^verbatim>\<open>return\<close> after a successful check, \<open>Failed\<close>
  for the end of the loop.
\<close>

datatype recovery_outcome = Healthy | Failed

definition max_retries :: nat where
  "max_retries = 3"

function recovery_loop ::
  "'w env \<Rightarrow> string \<Rightarrow> nat \<Rightarrow> 'w state \<Rightarrow> recovery_outcome \<times> 'w state" where
  "recovery_loop env source_name retry_count st =
     (if retry_count < max_retries then
        (let st1 = log INFO ''Recovery attempt'' st in
         case call (ReadDeployment (lfr_name source_name))
                   (read_namespaced_deployment env (lfr_name source_name)) st1 of
           (Raises, st2) \<Rightarrow>
             recovery_loop env source_name (retry_count + 1)
               (sleep 5 (log ERROR ''Recovery attempt failed'' st2))
         | (Returns deployment, st2) \<Rightarrow>
             (case call (PatchNamespacedDeployment (lfr_name source_name) PatchRestartedAt)
                        (patch_namespaced_deployment env (lfr_name source_name) PatchRestartedAt) st2 of
                (Raises, st3) \<Rightarrow>
                  recovery_loop env source_name (retry_count + 1)
                    (sleep 5 (log ERROR ''Recovery attempt failed'' st3))
              | (Returns _, st3) \<Rightarrow>
                  (case check_endpoint_health env source_name (sleep 10 st3) of
                     (True, st4) \<Rightarrow> (Healthy, log INFO ''Recovery successful'' st4)
                   | (False, st4) \<Rightarrow>
                       recovery_loop env source_name (retry_count + 1) (sleep 5 st4))))
      else (Failed, log ERROR ''Failed to recover'' st))"
  by pat_completeness auto
termination
  by (relation "measure (\<lambda>(env, source_name, retry_count, st). max_retries - retry_count)") auto

declare recovery_loop.simps [simp del]

definition handle_unhealthy_deployment ::
  "'w env \<Rightarrow> string \<Rightarrow> 'w state \<Rightarrow> recovery_outcome \<times> 'w state" where
  "handle_unhealthy_deployment env source_name st = recovery_loop env source_name 0 st"

section \<open>One cycle of the control loop\<close>

text \<open>
  The dictionary comprehension that builds \<^verbatim>\<open>current_sources\<close>; a deployment without
  a \<^verbatim>\<open>source\<close> label raises \<^verbatim>\<open>KeyError\<close>.
\<close>

fun current_sources_of ::
  "deployment list \<Rightarrow> (string \<times> deployment) list \<Rightarrow> py_error + (string \<times> deployment) list" where
  "current_sources_of [] acc = Inr acc"
| "current_sources_of (d # ds) acc =
     (case map_of (labels d) ''source'' of
        None \<Rightarrow> Inl (KeyError ''source'')
      | Some source_name \<Rightarrow> current_sources_of ds (AList.update source_name d acc))"

fun recover_unhealthy :: "'w env \<Rightarrow> (string \<times> bool) list \<Rightarrow> 'w state \<Rightarrow> 'w state" where
  "recover_unhealthy env [] st = st"
| "recover_unhealthy env ((source_name, is_healthy) # rest) st =
     (if \<not> is_healthy then
        recover_unhealthy env rest
          (snd (handle_unhealthy_deployment env source_name
                  (log WARNING ''Unhealthy deployment detected'' st)))
      else recover_unhealthy env rest st)"

text \<open>
  The body of the \<^verbatim>\<open>try\<close> of one iteration of \<^verbatim>\<open>manage_lfr_instances\<close>. Its first
  argument is the outcome of reloading the configuration in this cycle: the exception
  raised, or the entries of \<^verbatim>\<open>log_sources\<close>.
\<close>

definition cycle_body ::
  "'w env \<Rightarrow> py_error + log_source list \<Rightarrow> 'w state \<Rightarrow> (py_error + unit) \<times> 'w state" where
  "cycle_body env reload st =
     (case reload of
        Inl e \<Rightarrow> (Inl e, st)
      | Inr log_sources \<Rightarrow>
          (case call ListDeployment (list_namespaced_deployment env) st of
             (Raises, st1) \<Rightarrow> (Inl ApiException, st1)
           | (Returns current_deployments, st1) \<Rightarrow>
               (case current_sources_of current_deployments [] of
                  Inl e \<Rightarrow> (Inl e, st1)
                | Inr current_sources \<Rightarrow>
                    (case reconcile_loop env current_sources log_sources
                            (emit (SetDeploymentCount (length current_sources)) st1) of
                       (Inl e, st2) \<Rightarrow> (Inl e, st2)
                     | (Inr _, st2) \<Rightarrow>
                         (case monitor_lfr_health env st2 of
                            (Inl e, st3) \<Rightarrow> (Inl e, st3)
                          | (Inr health_status, st3) \<Rightarrow>
                              (Inr (), recover_unhealthy env health_status st3))))))"

text \<open>
  One iteration of the \<^verbatim>\<open>while True\<close>: the body, then thirty seconds of sleep, or the
  handler of \<^verbatim>\<open>Exception\<close>, which logs and sleeps sixty seconds.
\<close>

definition manage_lfr_instances_cycle ::
  "'w env \<Rightarrow> py_error + log_source list \<Rightarrow> 'w state \<Rightarrow> 'w state" where
  "manage_lfr_instances_cycle env reload st =
     (case cycle_body env reload st of
        (Inr _, st1) \<Rightarrow> sleep 30 st1
      | (Inl e, st1) \<Rightarrow> sleep 60 (log ERROR ''Error in control loop'' st1))"

section \<open>Loading the configuration\<close>

text \<open>
  A parsed YAML value, and what opening and parsing the configuration file gives: no
  file, a YAML error, or the parsed document, a dictionary as the signature of
  \<^verbatim>\<open>_validate_config\<close> says.
\<close>

datatype yaml =
    YNull
  | YBool bool
  | YInt int
  | YStr string
  | YList "yaml list"
  | YDict "(string \<times> yaml) list"

datatype config_file = NoSuchFile | InvalidYaml | Document "(string \<times> yaml) list"

definition required_fields :: "string list" where
  "required_fields = [''kubernetes'', ''log_sources'']"

fun validate_fields :: "string list \<Rightarrow> (string \<times> yaml) list \<Rightarrow> 'w state \<Rightarrow> (py_error + unit) \<times> 'w state" where
  "validate_fields [] config st = (Inr (), st)"
| "validate_fields (field # others) config st =
     (if \<not> is_key field config then
        (Inl (ValueError (''Missing required field: '' @ field)),
         log ERROR ''Missing required field'' st)
      else validate_fields others config st)"

definition validate_config :: "(string \<times> yaml) list \<Rightarrow> 'w state \<Rightarrow> (py_error + unit) \<times> 'w state" where
  "validate_config config st = validate_fields required_fields config st"

definition load_config ::
  "config_file \<Rightarrow> 'w state \<Rightarrow> (py_error + (string \<times> yaml) list) \<times> 'w state" where
  "load_config file st =
     (case file of
        NoSuchFile \<Rightarrow> (Inl FileNotFoundError, log ERROR ''Configuration file not found'' st)
      | InvalidYaml \<Rightarrow>
          (Inl (ValueError ''Invalid YAML configuration''), log ERROR ''Invalid YAML configuration'' st)
      | Document config \<Rightarrow>
          (case validate_config config st of
             (Inl e, st1) \<Rightarrow> (Inl e, st1)
           | (Inr _, st1) \<Rightarrow> (Inr config, st1)))"

text \<open>
  Subscripting a value with a string key, as in \<^verbatim>\<open>config['kubernetes']['namespace']\<close>:
  a dictionary without the key raises \<^verbatim>\<open>KeyError\<close>, any other value \<^verbatim>\<open>TypeError\<close>.
\<close>

fun subscript :: "yaml \<Rightarrow> string \<Rightarrow> py_error + yaml" where
  "subscript (YDict kvs) k = (case map_of kvs k of None \<Rightarrow> Inl (KeyError k) | Some v \<Rightarrow> Inr v)"
| "subscript v k = Inl TypeError"

text \<open>
  The part of the constructor that loads the configuration and reads the namespace (the
  Kubernetes client and the metrics are set up before and after).
\<close>

definition init ::
  "config_file \<Rightarrow> 'w state \<Rightarrow> (py_error + (string \<times> yaml) list \<times> yaml) \<times> 'w state" where
  "init file st =
     (case load_config file st of
        (Inl e, st1) \<Rightarrow> (Inl e, st1)
      | (Inr config, st1) \<Rightarrow>
          (case subscript (YDict config) ''kubernetes'' of
             Inl e \<Rightarrow> (Inl e, st1)
           | Inr k \<Rightarrow>
               (case subscript k ''namespace'' of
                  Inl e \<Rightarrow> (Inl e, st1)
                | Inr namespace \<Rightarrow> (Inr (config, namespace), st1))))"

section \<open>Counting the events of a recovery episode\<close>

text \<open>
  A restart action is a patch with the \<^verbatim>\<open>restartedAt\<close> annotation. Every iteration of
  the recovery loop begins with the record \<^verbatim>\<open>Recovery attempt\<close>, and the handler of
  \<^verbatim>\<open>ApiException\<close> in the loop writes \<^verbatim>\<open>Recovery attempt failed\<close>.
\<close>

fun is_restart :: "event \<Rightarrow> bool" where
  "is_restart (PatchNamespacedDeployment n PatchRestartedAt) = True"
| "is_restart e = False"

fun is_attempt :: "event \<Rightarrow> bool" where
  "is_attempt (Log INFO m) = (m = ''Recovery attempt'')"
| "is_attempt e = False"

fun is_api_error :: "event \<Rightarrow> bool" where
  "is_api_error (Log ERROR m) = (m = ''Recovery attempt failed'')"
| "is_api_error e = False"

definition restarts :: "event list \<Rightarrow> nat" where
  "restarts evs = length (filter is_restart evs)"

definition attempts :: "event list \<Rightarrow> nat" where
  "attempts evs = length (filter is_attempt evs)"

definition api_errors :: "event list \<Rightarrow> nat" where
  "api_errors evs = length (filter is_api_error evs)"

text \<open>The events that one recovery episode adds to the trace.\<close>

definition episode :: "'w env \<Rightarrow> string \<Rightarrow> 'w state \<Rightarrow> event list" where
  "episode env source_name st =
     drop (length (trace st)) (trace (snd (handle_unhealthy_deployment env source_name st)))"

text \<open>The events of an endpoint check: the listing of the members, the probes, its log.\<close>

fun is_probe_event :: "event \<Rightarrow> bool" where
  "is_probe_event (ListPod selector) = True"
| "is_probe_event (HttpGet url) = True"
| "is_probe_event (Log ERROR m) = (m = ''Health check failed'')"
| "is_probe_event e = False"

section \<open>Concrete scenarios\<close>

text \<open>
  A cluster in which every call succeeds: no deployment, no pod, every probe answers 200.
  The scenarios below change one collaborator at a time.
\<close>

definition quiet_env :: "unit env" where
  "quiet_env =
     \<lparr>list_namespaced_deployment = (\<lambda>w. (Returns [], w)),
      create_namespaced_deployment = (\<lambda>body w. (Returns (), w)),
      read_namespaced_deployment =
        (\<lambda>n w. (Returns \<lparr>metadata_name = n, labels = [], replicas = 1,
                              available_replicas = Some 1\<rparr>, w)),
      patch_namespaced_deployment = (\<lambda>n body w. (Returns (), w)),
      delete_namespaced_deployment = (\<lambda>n w. (Returns (), w)),
      list_namespaced_pod = (\<lambda>selector w. (Returns [], w)),
      requests_get = (\<lambda>url w. (Returns 200, w))\<rparr>"

definition st0 :: "unit state" where
  "st0 = \<lparr>world = (), trace = []\<rparr>"

definition app1 :: log_source where
  "app1 = \<lparr>name = ''app1'', enabled = True, instances_min = 2\<rparr>"

definition app2 :: log_source where
  "app2 = \<lparr>name = ''app2'', enabled = False, instances_min = 1\<rparr>"

definition app3 :: log_source where
  "app3 = \<lparr>name = ''app3'', enabled = True, instances_min = 1\<rparr>"

definition dep1 :: deployment where
  "dep1 = \<lparr>metadata_name = ''lfr-app1'', labels = [(''app'', ''lfr''), (''source'', ''app1'')],
            replicas = 3, available_replicas = Some 3\<rparr>"

text \<open>
  The fourth scenario of the specification: three replicas desired, two available, three
  members that all answer 200.
\<close>

definition dep_D :: deployment where
  "dep_D = \<lparr>metadata_name = ''lfr-app1'', labels = [(''app'', ''lfr''), (''source'', ''app1'')],
             replicas = 3, available_replicas = Some 2\<rparr>"

definition three_pods :: "pod list" where
  "three_pods = [\<lparr>pod_ip = Some ''10.0.0.1''\<rparr>, \<lparr>pod_ip = Some ''10.0.0.2''\<rparr>,
                 \<lparr>pod_ip = Some ''10.0.0.3''\<rparr>]"

definition dep2 :: deployment where
  "dep2 = \<lparr>metadata_name = ''lfr-app2'', labels = [(''app'', ''lfr''), (''source'', ''app2'')],
            replicas = 3, available_replicas = Some 3\<rparr>"

definition env_D :: "unit env" where
  "env_D = quiet_env
     \<lparr>list_namespaced_deployment := (\<lambda>w. (Returns [dep_D], w)),
      read_namespaced_deployment := (\<lambda>n w. (Returns dep_D, w)),
      list_namespaced_pod := (\<lambda>selector w. (Returns three_pods, w))\<rparr>"

text \<open>
  Two deployments, the first with two of three replicas available, the second with three
  of three; the members of both answer 200.
\<close>

definition env_two :: "unit env" where
  "env_two = quiet_env
     \<lparr>list_namespaced_deployment := (\<lambda>w. (Returns [dep_D, dep2], w)),
      list_namespaced_pod := (\<lambda>selector w. (Returns three_pods, w))\<rparr>"

text \<open>A cluster in which no member answers 200.\<close>

definition env_all_500 :: "unit env" where
  "env_all_500 = quiet_env
     \<lparr>list_namespaced_deployment := (\<lambda>w. (Returns [dep2], w)),
      list_namespaced_pod := (\<lambda>selector w. (Returns three_pods, w)),
      requests_get := (\<lambda>url w. (Returns 500, w))\<rparr>"

text \<open>A deployment that reports no available replica count, with healthy members.\<close>

definition dep_unreported :: deployment where
  "dep_unreported = \<lparr>metadata_name = ''lfr-app1'', labels = [(''app'', ''lfr''), (''source'', ''app1'')],
             replicas = 3, available_replicas = None\<rparr>"

definition env_unreported :: "unit env" where
  "env_unreported = quiet_env
     \<lparr>list_namespaced_deployment := (\<lambda>w. (Returns [dep_unreported], w)),
      list_namespaced_pod := (\<lambda>selector w. (Returns three_pods, w))\<rparr>"

text \<open>A cluster that refuses to list the deployments.\<close>

definition env_list_fails :: "unit env" where
  "env_list_fails = quiet_env\<lparr>list_namespaced_deployment := (\<lambda>w. (Raises, w))\<rparr>"

text \<open>
  Members without an address, in a network where every probe would fail; a member with
  an address whose probe raises; a cluster that refuses to list the members.
\<close>

definition env_pending :: "unit env" where
  "env_pending = quiet_env
     \<lparr>list_namespaced_pod := (\<lambda>selector w. (Returns [\<lparr>pod_ip = None\<rparr>, \<lparr>pod_ip = Some []\<rparr>], w)),
      requests_get := (\<lambda>url w. (Raises, w))\<rparr>"

definition env_probe_error :: "unit env" where
  "env_probe_error = quiet_env
     \<lparr>list_namespaced_pod := (\<lambda>selector w. (Returns [\<lparr>pod_ip = Some ''10.0.0.1''\<rparr>], w)),
      requests_get := (\<lambda>url w. (Raises, w))\<rparr>"

definition env_pods_unlisted :: "unit env" where
  "env_pods_unlisted = quiet_env\<lparr>list_namespaced_pod := (\<lambda>selector w. (Raises, w))\<rparr>"

text \<open>
  The last scenario of the specification: the members answer 500 after every restart.
  A cluster that refuses to read the deployment.
\<close>

definition env_unhealthy :: "unit env" where
  "env_unhealthy = quiet_env
     \<lparr>list_namespaced_pod := (\<lambda>selector w. (Returns [\<lparr>pod_ip = Some ''10.0.0.1''\<rparr>], w)),
      requests_get := (\<lambda>url w. (Returns 500, w))\<rparr>"

definition env_read_fails :: "unit env" where
  "env_read_fails = quiet_env\<lparr>read_namespaced_deployment := (\<lambda>n w. (Raises, w))\<rparr>"

text \<open>
  A cluster that refuses to create the deployment of \<open>app1\<close>, and one that runs the
  deployment of \<open>app2\<close> and refuses to delete it.
\<close>

definition env_delete_fails :: "unit env" where
  "env_delete_fails = quiet_env
     \<lparr>list_namespaced_deployment := (\<lambda>w. (Returns [dep2], w)),
      delete_namespaced_deployment :=
        (\<lambda>n w. (if n = ''lfr-app2'' then Raises else Returns (), w))\<rparr>"


definition env_create_fails :: "unit env" where
  "env_create_fails = quiet_env
     \<lparr>create_namespaced_deployment :=
        (\<lambda>body w. (if body_source body = ''app1'' then Raises else Returns (), w))\<rparr>"

text \<open>
  Two documents: one with the fields \<^verbatim>\<open>namespace\<close> and \<^verbatim>\<open>log_sources\<close>, one with
  \<^verbatim>\<open>kubernetes\<close> and \<^verbatim>\<open>log_sources\<close> and no namespace anywhere.
\<close>

definition doc_namespace :: "(string \<times> yaml) list" where
  "doc_namespace = [(''namespace'', YStr ''lmm''), (''log_sources'', YList [])]"

definition doc_kubernetes :: "(string \<times> yaml) list" where
  "doc_kubernetes = [(''kubernetes'', YDict []), (''log_sources'', YList [])]"

section \<open>The state and the trace\<close>

lemma world_emit: "world (emit e st) = world st"
  by (simp add: emit_def)

lemma trace_emit: "trace (emit e st) = trace st @ [e]"
  by (simp add: emit_def)

lemma world_log: "world (log l m st) = world st"
  by (simp add: log_def emit_def)

lemma trace_log: "trace (log l m st) = trace st @ [Log l m]"
  by (simp add: log_def emit_def)

lemma world_sleep: "world (sleep k st) = world st"
  by (simp add: sleep_def emit_def)

lemma trace_sleep: "trace (sleep k st) = trace st @ [Sleep k]"
  by (simp add: sleep_def emit_def)

lemma call_eq:
  "call e f st = (fst (f (world st)), \<lparr>world = snd (f (world st)), trace = trace st @ [e]\<rparr>)"
  by (simp add: call_def split: prod.splits)

lemma fst_call: "fst (call e f st) = fst (f (world st))"
  by (simp add: call_eq)

lemma world_call: "world (snd (call e f st)) = snd (f (world st))"
  by (simp add: call_eq)

lemma trace_call: "trace (snd (call e f st)) = trace st @ [e]"
  by (simp add: call_eq)

section \<open>Properties of the reconciliation loop\<close>

lemma run_actions_append:
  "run_actions env (xs @ ys) st =
     (case run_actions env xs st of
        (Inl e, st1) \<Rightarrow> (Inl e, st1)
      | (Inr _, st1) \<Rightarrow> run_actions env ys st1)"
  by (induction xs arbitrary: st) (auto split: prod.splits sum.splits)

lemma reconcile_loop_undefined_method:
  "enabled s \<Longrightarrow> is_key (name s) cs \<Longrightarrow>
   reconcile_loop env cs (s # rest) st = (Inl (AttributeError ''check_scaling_needs''), st)"
  by simp

lemma reconcile_loop_step:
  "\<not> (enabled s \<and> is_key (name s) cs) \<Longrightarrow>
   reconcile_loop env cs (s # rest) st =
     (case run_actions env (rule_table p c cs s) st of
        (Inl e, st1) \<Rightarrow> (Inl e, st1)
      | (Inr _, st1) \<Rightarrow> reconcile_loop env cs rest st1)"
  by (auto simp: rule_table_def Let_def split: prod.splits sum.splits)

lemma reconcile_Cons:
  "reconcile p c (s # rest) cs = rule_table p c cs s @ reconcile p c rest cs"
  by (simp add: reconcile_def)

lemma reconcile_loop_run_actions:
  "\<forall>s \<in> set srcs. \<not> (enabled s \<and> is_key (name s) cs) \<Longrightarrow>
   reconcile_loop env cs srcs st = run_actions env (reconcile p c srcs cs) st"
proof (induction srcs arbitrary: st)
  case Nil
  show ?case by (simp add: reconcile_def)
next
  case (Cons s rest)
  from Cons.prems have s: "\<not> (enabled s \<and> is_key (name s) cs)"
    and r: "\<forall>x \<in> set rest. \<not> (enabled x \<and> is_key (name x) cs)"
    by simp_all
  from Cons.IH [OF r] have ih: "\<And>st. reconcile_loop env cs rest st = run_actions env (reconcile p c rest cs) st" .
  show ?case
    by (simp only: reconcile_loop_step [OF s, of env rest st p c] reconcile_Cons run_actions_append ih)
qed

lemma rule_table_names:
  "a \<in> set (rule_table p c obs s) \<Longrightarrow> action_name a = name s"
  by (auto simp: rule_table_def split: if_splits)

lemma rule_table_length: "length (rule_table p c obs s) \<le> 1"
  by (simp add: rule_table_def)

lemma filter_reconcile_other:
  "n \<notin> set (map name srcs) \<Longrightarrow> filter (\<lambda>a. action_name a = n) (reconcile p c srcs obs) = []"
  by (induction srcs) (auto simp: reconcile_def filter_empty_conv dest: rule_table_names)

lemma filter_rule_table_same:
  "filter (\<lambda>a. action_name a = name s) (rule_table p c obs s) = rule_table p c obs s"
  by (auto simp: filter_id_conv dest: rule_table_names)

lemma filter_rule_table_other:
  "name s \<noteq> n \<Longrightarrow> filter (\<lambda>a. action_name a = n) (rule_table p c obs s) = []"
  by (auto simp: filter_empty_conv dest: rule_table_names)

lemma filter_reconcile_member:
  "distinct (map name srcs) \<Longrightarrow> s \<in> set srcs \<Longrightarrow>
     filter (\<lambda>a. action_name a = name s) (reconcile p c srcs obs) = rule_table p c obs s"
proof (induction srcs)
  case Nil
  then show ?case by simp
next
  case (Cons x xs)
  show ?case
  proof (cases "x = s")
    case True
    with Cons.prems have "name s \<notin> set (map name xs)" by simp
    then have "filter (\<lambda>a. action_name a = name s) (reconcile p c xs obs) = []"
      by (rule filter_reconcile_other)
    with True show ?thesis
      by (simp add: reconcile_def filter_rule_table_same)
  next
    case False
    with Cons.prems have mem: "s \<in> set xs" and ne: "name x \<noteq> name s"
      by auto
    from Cons.prems have dist: "distinct (map name xs)" by simp
    from dist mem have "filter (\<lambda>a. action_name a = name s) (reconcile p c xs obs) = rule_table p c obs s"
      by (rule Cons.IH)
    with ne show ?thesis
      by (simp add: reconcile_def filter_rule_table_other)
  qed
qed

lemma reconcile_at_most_one:
  "distinct (map name srcs) \<Longrightarrow> length (filter (\<lambda>a. action_name a = n) (reconcile p c srcs obs)) \<le> 1"
proof (cases "n \<in> set (map name srcs)")
  case False
  then show ?thesis by (simp add: filter_reconcile_other)
next
  case True
  then obtain s where s: "s \<in> set srcs" "n = name s" by auto
  assume "distinct (map name srcs)"
  then have "filter (\<lambda>a. action_name a = name s) (reconcile p c srcs obs) = rule_table p c obs s"
    using s(1) by (rule filter_reconcile_member)
  with s(2) rule_table_length [of p c obs s] show ?thesis by simp
qed

lemma quiet_env_calls:
  "create_namespaced_deployment quiet_env body w = (Returns (), w)"
  "delete_namespaced_deployment quiet_env n w = (Returns (), w)"
  by (simp_all add: quiet_env_def)

lemma create_quiet:
  "create_lfr_deployment quiet_env n r st =
     (Inr (), \<lparr>world = (), trace = trace st @
        [CreateDeployment \<lparr>body_name = ''lfr-'' @ n, body_replicas = r, body_source = n\<rparr>,
         Log INFO ''Created LFR deployment for source'']\<rparr>)"
  by (simp add: create_lfr_deployment_def call_eq quiet_env_calls lfr_name_def log_def emit_def Let_def)

lemma delete_quiet:
  "delete_lfr_deployment quiet_env n st =
     (Inr (), \<lparr>world = (), trace = trace st @
        [DeleteDeployment (''lfr-'' @ n), Log INFO ''Deleted LFR deployment for source'']\<rparr>)"
  by (simp add: delete_lfr_deployment_def call_eq quiet_env_calls lfr_name_def log_def emit_def)

text \<open>
  Claim C1 does not hold of the code. A configuration that lists the enabled source
  \<open>app1\<close> twice, with nothing observed, creates its deployment twice. And when \<open>app1\<close>
  is enabled and observed and \<open>app2\<close> is disabled and observed, the rule table scales
  the first when the predicate holds and deletes the second, whereas the loop raises
  \<open>AttributeError\<close> at \<open>app1\<close> and makes no call at all.
\<close>

theorem reconcile_loop_counterexample:
  "trace (snd (reconcile_loop quiet_env [] [app1, app1] st0)) =
     [CreateDeployment \<lparr>body_name = ''lfr-app1'', body_replicas = 2, body_source = ''app1''\<rparr>,
      Log INFO ''Created LFR deployment for source'',
      CreateDeployment \<lparr>body_name = ''lfr-app1'', body_replicas = 2, body_source = ''app1''\<rparr>,
      Log INFO ''Created LFR deployment for source'']
   \<and> reconcile (\<lambda>n. True) (\<lambda>n. 3) [app1, app2] [(''app1'', dep1), (''app2'', dep2)] =
       [Scale ''app1'' 4, Delete ''app2'']
   \<and> reconcile_loop quiet_env [(''app1'', dep1), (''app2'', dep2)] [app1, app2] st0 =
       (Inl (AttributeError ''check_scaling_needs''), st0)"
proof -
  have a: "trace (snd (reconcile_loop quiet_env [] [app1, app1] st0)) =
     [CreateDeployment \<lparr>body_name = ''lfr-app1'', body_replicas = 2, body_source = ''app1''\<rparr>,
      Log INFO ''Created LFR deployment for source'',
      CreateDeployment \<lparr>body_name = ''lfr-app1'', body_replicas = 2, body_source = ''app1''\<rparr>,
      Log INFO ''Created LFR deployment for source'']"
    by (simp add: create_quiet app1_def is_key_def st0_def Let_def)
  have b: "reconcile (\<lambda>n. True) (\<lambda>n. 3) [app1, app2] [(''app1'', dep1), (''app2'', dep2)] =
       [Scale ''app1'' 4, Delete ''app2'']"
    by (simp add: reconcile_def rule_table_def app1_def app2_def is_key_def)
  have c: "reconcile_loop quiet_env [(''app1'', dep1), (''app2'', dep2)] [app1, app2] st0 =
       (Inl (AttributeError ''check_scaling_needs''), st0)"
    by (simp add: app1_def is_key_def)
  from a b c show ?thesis by (intro conjI)
qed

text \<open>
  Claim C1, amended. Take a desired configuration in which no enabled source is observed
  already. The loop over its sources does what executing the actions of the rule table
  does, one after the other and up to the first that raises. When the source names are
  distinct, these actions hold at most one action per source name, and the action of a
  source is: \<open>Create\<close> with the minimum replica count when it is enabled (and so not
  observed); \<open>Delete\<close> when it is disabled and observed; nothing when it is disabled and
  not observed.
\<close>

theorem reconcile_loop_create_delete:
  assumes "\<forall>s \<in> set srcs. \<not> (enabled s \<and> is_key (name s) cs)"
  shows "reconcile_loop env cs srcs st = run_actions env (reconcile p c srcs cs) st
   \<and> (distinct (map name srcs) \<longrightarrow>
        (\<forall>n. length (filter (\<lambda>a. action_name a = n) (reconcile p c srcs cs)) \<le> 1)
      \<and> (\<forall>s \<in> set srcs.
           filter (\<lambda>a. action_name a = name s) (reconcile p c srcs cs) =
           (if enabled s then [Create (name s) (instances_min s)]
            else if is_key (name s) cs then [Delete (name s)]
            else [])))"
proof (intro conjI impI allI ballI)
  show "reconcile_loop env cs srcs st = run_actions env (reconcile p c srcs cs) st"
    using assms by (rule reconcile_loop_run_actions)
next
  fix n assume "distinct (map name srcs)"
  then show "length (filter (\<lambda>a. action_name a = n) (reconcile p c srcs cs)) \<le> 1"
    by (rule reconcile_at_most_one)
next
  fix s assume d: "distinct (map name srcs)" and m: "s \<in> set srcs"
  from d m have "filter (\<lambda>a. action_name a = name s) (reconcile p c srcs cs) = rule_table p c cs s"
    by (rule filter_reconcile_member)
  moreover from assms m have "\<not> (enabled s \<and> is_key (name s) cs)" by blast
  ultimately show "filter (\<lambda>a. action_name a = name s) (reconcile p c srcs cs) =
           (if enabled s then [Create (name s) (instances_min s)]
            else if is_key (name s) cs then [Delete (name s)]
            else [])"
    by (auto simp: rule_table_def)
qed

text \<open>
  The first two scenarios of the specification in one configuration: \<open>app1\<close> and \<open>app3\<close>
  are enabled and not observed, \<open>app2\<close> is disabled and observed. The loop creates the
  first, deletes the second and creates the third.
\<close>

theorem reconcile_loop_create_delete_witness:
  "\<not> is_key (name app1) [(''app2'', dep2)] \<and> \<not> enabled app2 \<and> \<not> is_key (name app3) [(''app2'', dep2)]
   \<and> distinct (map name [app1, app2, app3])
   \<and> reconcile (\<lambda>n. True) (\<lambda>n. 3) [app1, app2, app3] [(''app2'', dep2)] =
       [Create ''app1'' 2, Delete ''app2'', Create ''app3'' 1]
   \<and> reconcile_loop quiet_env [(''app2'', dep2)] [app1, app2, app3] st0 =
       run_actions quiet_env [Create ''app1'' 2, Delete ''app2'', Create ''app3'' 1] st0
   \<and> filter (\<lambda>a. action_name a = name app2)
         (reconcile (\<lambda>n. True) (\<lambda>n. 3) [app1, app2, app3] [(''app2'', dep2)]) = [Delete ''app2'']
   \<and> trace (snd (reconcile_loop quiet_env [(''app2'', dep2)] [app1, app2, app3] st0)) =
       [CreateDeployment \<lparr>body_name = ''lfr-app1'', body_replicas = 2, body_source = ''app1''\<rparr>,
        Log INFO ''Created LFR deployment for source'',
        DeleteDeployment ''lfr-app2'', Log INFO ''Deleted LFR deployment for source'',
        CreateDeployment \<lparr>body_name = ''lfr-app3'', body_replicas = 1, body_source = ''app3''\<rparr>,
        Log INFO ''Created LFR deployment for source'']"
proof -
  let ?cs = "[(''app2'', dep2)]"
  have f: "\<not> is_key (name app1) ?cs \<and> \<not> enabled app2 \<and> \<not> is_key (name app3) ?cs"
    by (simp add: app1_def app2_def app3_def is_key_def)
  then have h: "\<forall>s \<in> set [app1, app2, app3]. \<not> (enabled s \<and> is_key (name s) ?cs)"
    by simp
  have d: "distinct (map name [app1, app2, app3])"
    by (simp add: app1_def app2_def app3_def)
  have m: "app2 \<in> set [app1, app2, app3]" by simp
  have r: "reconcile (\<lambda>n. True) (\<lambda>n. 3) [app1, app2, app3] ?cs =
       [Create ''app1'' 2, Delete ''app2'', Create ''app3'' 1]"
    by (simp add: reconcile_def rule_table_def app1_def app2_def app3_def is_key_def)
  have k: "(if enabled app2 then [Create (name app2) (instances_min app2)]
            else if is_key (name app2) ?cs then [Delete (name app2)] else []) = [Delete ''app2'']"
    by (simp add: app2_def is_key_def)
  note t = reconcile_loop_create_delete [OF h, of quiet_env st0 "\<lambda>n. True" "\<lambda>n. 3"]
  from conjunct1 [OF t]
  have l: "reconcile_loop quiet_env ?cs [app1, app2, app3] st0 =
       run_actions quiet_env [Create ''app1'' 2, Delete ''app2'', Create ''app3'' 1] st0"
    by (simp only: r)
  from bspec [OF conjunct2 [OF mp [OF conjunct2 [OF t] d]] m] k
  have e: "filter (\<lambda>a. action_name a = name app2)
         (reconcile (\<lambda>n. True) (\<lambda>n. 3) [app1, app2, app3] ?cs) = [Delete ''app2'']"
    by (rule trans)
  have tr: "trace (snd (reconcile_loop quiet_env ?cs [app1, app2, app3] st0)) =
       [CreateDeployment \<lparr>body_name = ''lfr-app1'', body_replicas = 2, body_source = ''app1''\<rparr>,
        Log INFO ''Created LFR deployment for source'',
        DeleteDeployment ''lfr-app2'', Log INFO ''Deleted LFR deployment for source'',
        CreateDeployment \<lparr>body_name = ''lfr-app3'', body_replicas = 1, body_source = ''app3''\<rparr>,
        Log INFO ''Created LFR deployment for source'']"
    by (subst l) (simp add: create_quiet delete_quiet st0_def)
  from f d r l e tr show ?thesis by (intro conjI) simp_all
qed




section \<open>Properties of the health evaluation\<close>

lemma probe_pods_conjunction:
  "fst (probe_pods env pods st) =
     list_all (\<lambda>r. r = Returns 200) (probe_each env (filter has_ip pods) (world st))"
proof (induction pods arbitrary: st)
  case Nil
  show ?case by simp
next
  case (Cons p ps)
  show ?case
  proof (cases "has_ip p")
    case False
    then show ?thesis using Cons.IH by simp
  next
    case True
    obtain r w1 where f: "requests_get env (health_url p) (world st) = (r, w1)"
      by (cases "requests_get env (health_url p) (world st)")
    show ?thesis
    proof (cases r)
      case Raises
      with True f show ?thesis by (simp add: call_eq)
    next
      case (Returns status_code)
      with True f Cons.IH [of "\<lparr>world = w1, trace = trace st @ [HttpGet (health_url p)]\<rparr>"]
      show ?thesis by (simp add: call_eq)
    qed
  qed
qed

lemma check_endpoint_health_spec:
  "fst (check_endpoint_health env n st) = endpointHealthy env n (world st)"
proof -
  obtain r w1 where f: "list_namespaced_pod env (pod_selector n) (world st) = (r, w1)"
    by (cases "list_namespaced_pod env (pod_selector n) (world st)")
  show ?thesis
  proof (cases r)
    case Raises
    with f show ?thesis
      by (simp add: check_endpoint_health_def endpointHealthy_def call_eq)
  next
    case (Returns pods)
    with f show ?thesis
      by (simp add: check_endpoint_health_def endpointHealthy_def call_eq probe_pods_conjunction)
  qed
qed

lemma monitor_loop_Cons:
  "map_of (labels d) ''source'' = Some m \<Longrightarrow>
   monitor_loop env (d # ds) hs st =
     monitor_loop env ds
       (AList.update m (workloadHealthy d \<and> fst (check_endpoint_health env m st)) hs)
       (emit (SetHealthStatus m (workloadHealthy d \<and> fst (check_endpoint_health env m st)))
          (snd (check_endpoint_health env m st)))"
  by (cases "check_endpoint_health env m st"; cases "available_replicas d")
     (simp_all add: workloadHealthy_def Let_def)

lemma monitor_loop_Cons_unlabelled:
  "map_of (labels d) ''source'' = None \<Longrightarrow>
   monitor_loop env (d # ds) hs st = (Some (KeyError ''source''), hs, st)"
  by simp

lemma monitor_loop_verdict:
  "monitor_loop env ds hs st = (r, hs', st') \<Longrightarrow> map_of hs' n = Some b \<Longrightarrow>
   map_of hs n = Some b \<or>
   (\<exists>d \<in> set ds. \<exists>st_a. map_of (labels d) ''source'' = Some n \<and>
      b = (workloadHealthy d \<and> fst (check_endpoint_health env n st_a)))"
proof (induction ds arbitrary: hs st)
  case Nil
  then show ?case by simp
next
  case (Cons d ds)
  show ?case
  proof (cases "map_of (labels d) ''source''")
    case None
    with Cons.prems show ?thesis by (simp del: monitor_loop.simps add: monitor_loop_Cons_unlabelled)
  next
    case (Some m)
    let ?v = "workloadHealthy d \<and> fst (check_endpoint_health env m st)"
    from Cons.prems(1) Some
    have run: "monitor_loop env ds (AList.update m ?v hs)
                 (emit (SetHealthStatus m ?v) (snd (check_endpoint_health env m st))) = (r, hs', st')"
      by (simp only: monitor_loop_Cons)
    from Cons.IH [OF run Cons.prems(2)]
    consider (old) "map_of (AList.update m ?v hs) n = Some b"
      | (later) "\<exists>d \<in> set ds. \<exists>st_a. map_of (labels d) ''source'' = Some n \<and>
          b = (workloadHealthy d \<and> fst (check_endpoint_health env n st_a))"
      by blast
    then show ?thesis
    proof cases
      case later
      then show ?thesis by auto
    next
      case old
      show ?thesis
      proof (cases "n = m")
        case True
        with old have "b = ?v" by (simp add: update_conv')
        with True Some show ?thesis by auto
      next
        case False
        with old have "map_of hs n = Some b" by (simp add: update_conv')
        then show ?thesis by simp
      qed
    qed
  qed
qed

lemma monitor_loop_keeps_keys:
  "monitor_loop env ds hs st = (r, hs', st') \<Longrightarrow> map_of hs n \<noteq> None \<Longrightarrow> map_of hs' n \<noteq> None"
proof (induction ds arbitrary: hs st)
  case Nil
  then show ?case by simp
next
  case (Cons d ds)
  show ?case
  proof (cases "map_of (labels d) ''source''")
    case None
    with Cons.prems show ?thesis by (simp del: monitor_loop.simps add: monitor_loop_Cons_unlabelled)
  next
    case (Some m)
    let ?v = "workloadHealthy d \<and> fst (check_endpoint_health env m st)"
    from Cons.prems(1) Some
    have run: "monitor_loop env ds (AList.update m ?v hs)
                 (emit (SetHealthStatus m ?v) (snd (check_endpoint_health env m st))) = (r, hs', st')"
      by (simp only: monitor_loop_Cons)
    from Cons.prems(2) have "map_of (AList.update m ?v hs) n \<noteq> None"
      by (simp add: update_conv')
    with run show ?thesis by (rule Cons.IH)
  qed
qed

lemma monitor_loop_adds_keys:
  "monitor_loop env ds hs st = (None, hs', st') \<Longrightarrow> d \<in> set ds \<Longrightarrow>
   map_of (labels d) ''source'' = Some n \<Longrightarrow> map_of hs' n \<noteq> None"
proof (induction ds arbitrary: hs st)
  case Nil
  then show ?case by simp
next
  case (Cons x xs)
  show ?case
  proof (cases "map_of (labels x) ''source''")
    case None
    with Cons.prems(1) show ?thesis by (simp del: monitor_loop.simps add: monitor_loop_Cons_unlabelled)
  next
    case (Some m)
    let ?v = "workloadHealthy x \<and> fst (check_endpoint_health env m st)"
    from Cons.prems(1) Some
    have run: "monitor_loop env xs (AList.update m ?v hs)
                 (emit (SetHealthStatus m ?v) (snd (check_endpoint_health env m st))) = (None, hs', st')"
      by (simp only: monitor_loop_Cons)
    show ?thesis
    proof (cases "d = x")
      case True
      with Some Cons.prems(3) have "map_of (AList.update m ?v hs) n \<noteq> None"
        by (simp add: update_conv')
      with run show ?thesis by (rule monitor_loop_keeps_keys)
    next
      case False
      with Cons.prems(2) have "d \<in> set xs" by simp
      with run show ?thesis using Cons.prems(3) by (rule Cons.IH)
    qed
  qed
qed

lemma monitor_loop_no_ApiException:
  "fst (monitor_loop env ds hs st) \<noteq> Some ApiException"
proof (induction ds arbitrary: hs st)
  case Nil
  show ?case by simp
next
  case (Cons d ds)
  show ?case
  proof (cases "map_of (labels d) ''source''")
    case None
    then show ?thesis by (simp del: monitor_loop.simps add: monitor_loop_Cons_unlabelled)
  next
    case (Some m)
    then show ?thesis using Cons.IH by (simp add: monitor_loop_Cons del: monitor_loop.simps)
  qed
qed

lemma monitor_lfr_health_Raises:
  "fst (list_namespaced_deployment env (world st)) = Raises \<Longrightarrow>
   monitor_lfr_health env st =
     (Inr [], log ERROR ''Failed to check deployment health''
                (snd (call ListDeployment (list_namespaced_deployment env) st)))"
  by (cases "list_namespaced_deployment env (world st)")
     (simp add: monitor_lfr_health_def call_eq)

lemma monitor_lfr_health_Returns:
  "list_namespaced_deployment env (world st) = (Returns ds, w1) \<Longrightarrow>
   monitor_lfr_health env st =
     (case monitor_loop env ds [] \<lparr>world = w1, trace = trace st @ [ListDeployment]\<rparr> of
        (None, hs, st2) \<Rightarrow> (Inr hs, st2)
      | (Some e, hs, st2) \<Rightarrow> (Inl e, st2))"
proof -
  assume l: "list_namespaced_deployment env (world st) = (Returns ds, w1)"
  obtain r hs st2 where m: "monitor_loop env ds [] \<lparr>world = w1, trace = trace st @ [ListDeployment]\<rparr> = (r, hs, st2)"
    by (cases "monitor_loop env ds [] \<lparr>world = w1, trace = trace st @ [ListDeployment]\<rparr>")
  from monitor_loop_no_ApiException [of env ds "[]" "\<lparr>world = w1, trace = trace st @ [ListDeployment]\<rparr>"] m
  have "r \<noteq> Some ApiException" by simp
  with l m show ?thesis
    by (cases r) (auto simp: monitor_lfr_health_def call_eq split: py_error.splits)
qed

lemma monitor_loop_labelled:
  "\<forall>d \<in> set ds. map_of (labels d) ''source'' \<noteq> None \<Longrightarrow> fst (monitor_loop env ds hs st) = None"
proof (induction ds arbitrary: hs st)
  case Nil
  show ?case by simp
next
  case (Cons d ds)
  from Cons.prems obtain m where m: "map_of (labels d) ''source'' = Some m" by auto
  from Cons.prems have "\<forall>d \<in> set ds. map_of (labels d) ''source'' \<noteq> None" by simp
  then show ?case using m Cons.IH by (simp add: monitor_loop_Cons del: monitor_loop.simps)
qed

text \<open>
  Claim C4. The endpoint verdict of the code is the conjunction, over the members with an
  address, of the probe answering 200. Members without an address are not probed: when no
  listed member has one, the verdict is healthy. A listing that raises and a probe that
  raises give the verdict unhealthy; the function returns a verdict in every case.
\<close>

theorem check_endpoint_health_fail_closed:
  "fst (check_endpoint_health env n st) = endpointHealthy env n (world st)
   \<and> (list_namespaced_pod env (pod_selector n) (world st) = (Returns pods, w1)
        \<and> (\<forall>p \<in> set pods. \<not> has_ip p) \<longrightarrow> fst (check_endpoint_health env n st))
   \<and> (fst (list_namespaced_pod env (pod_selector n) (world st)) = Raises
        \<longrightarrow> \<not> fst (check_endpoint_health env n st))
   \<and> (list_namespaced_pod env (pod_selector n) (world st) = (Returns pods, w1)
        \<and> Raises \<in> set (probe_each env (filter has_ip pods) w1)
        \<longrightarrow> \<not> fst (check_endpoint_health env n st))"
proof (intro conjI impI)
  show "fst (check_endpoint_health env n st) = endpointHealthy env n (world st)"
    by (rule check_endpoint_health_spec)
next
  assume "list_namespaced_pod env (pod_selector n) (world st) = (Returns pods, w1)
            \<and> (\<forall>p \<in> set pods. \<not> has_ip p)"
  then have l: "list_namespaced_pod env (pod_selector n) (world st) = (Returns pods, w1)"
    and "filter has_ip pods = []"
    by (simp_all add: filter_empty_conv)
  then show "fst (check_endpoint_health env n st)"
    by (simp add: check_endpoint_health_spec endpointHealthy_def)
next
  assume "fst (list_namespaced_pod env (pod_selector n) (world st)) = Raises"
  then show "\<not> fst (check_endpoint_health env n st)"
    by (cases "list_namespaced_pod env (pod_selector n) (world st)")
       (simp add: check_endpoint_health_spec endpointHealthy_def)
next
  assume "list_namespaced_pod env (pod_selector n) (world st) = (Returns pods, w1)
            \<and> Raises \<in> set (probe_each env (filter has_ip pods) w1)"
  then show "\<not> fst (check_endpoint_health env n st)"
    by (auto simp: check_endpoint_health_spec endpointHealthy_def list_all_iff)
qed

lemma env_pending_pods:
  "list_namespaced_pod env_pending (pod_selector ''app1'') (world st0) =
     (Returns [\<lparr>pod_ip = None\<rparr>, \<lparr>pod_ip = Some []\<rparr>], ())"
  by (simp add: env_pending_def)

lemma env_probe_error_pods:
  "list_namespaced_pod env_probe_error (pod_selector ''app1'') (world st0) =
     (Returns [\<lparr>pod_ip = Some ''10.0.0.1''\<rparr>], ())"
  by (simp add: env_probe_error_def)

lemma env_probe_error_probes:
  "probe_each env_probe_error (filter has_ip [\<lparr>pod_ip = Some ''10.0.0.1''\<rparr>]) () = [Raises]"
  by (simp add: env_probe_error_def has_ip_def)

theorem check_endpoint_health_fail_closed_witness:
  "list_namespaced_pod env_pending (pod_selector ''app1'') (world st0) =
     (Returns [\<lparr>pod_ip = None\<rparr>, \<lparr>pod_ip = Some []\<rparr>], ())
   \<and> \<not> has_ip \<lparr>pod_ip = None\<rparr> \<and> \<not> has_ip \<lparr>pod_ip = Some []\<rparr>
   \<and> fst (check_endpoint_health env_pending ''app1'' st0)
   \<and> fst (list_namespaced_pod env_pods_unlisted (pod_selector ''app1'') (world st0)) = Raises
   \<and> \<not> fst (check_endpoint_health env_pods_unlisted ''app1'' st0)
   \<and> Raises \<in> set (probe_each env_probe_error (filter has_ip [\<lparr>pod_ip = Some ''10.0.0.1''\<rparr>]) ())
   \<and> \<not> fst (check_endpoint_health env_probe_error ''app1'' st0)"
proof -
  have a: "\<not> has_ip \<lparr>pod_ip = None\<rparr> \<and> \<not> has_ip \<lparr>pod_ip = Some []\<rparr>"
    by (simp add: has_ip_def)
  then have b: "\<forall>p \<in> set [\<lparr>pod_ip = None\<rparr>, \<lparr>pod_ip = Some []\<rparr>]. \<not> has_ip p"
    by simp
  note t1 = check_endpoint_health_fail_closed
              [of env_pending "''app1''" st0 "[\<lparr>pod_ip = None\<rparr>, \<lparr>pod_ip = Some []\<rparr>]" "()"]
  have c: "fst (check_endpoint_health env_pending ''app1'' st0)"
    using conjunct1 [OF conjunct2 [OF t1]] env_pending_pods b by (rule mp [OF _ conjI])
  have d: "fst (list_namespaced_pod env_pods_unlisted (pod_selector ''app1'') (world st0)) = Raises"
    by (simp add: env_pods_unlisted_def)
  note t2 = check_endpoint_health_fail_closed [of env_pods_unlisted "''app1''" st0 "[]" "()"]
  have e: "\<not> fst (check_endpoint_health env_pods_unlisted ''app1'' st0)"
    using conjunct1 [OF conjunct2 [OF conjunct2 [OF t2]]] d by (rule mp)
  have f: "Raises \<in> set (probe_each env_probe_error (filter has_ip [\<lparr>pod_ip = Some ''10.0.0.1''\<rparr>]) ())"
    by (subst env_probe_error_probes) simp
  note t3 = check_endpoint_health_fail_closed
              [of env_probe_error "''app1''" st0 "[\<lparr>pod_ip = Some ''10.0.0.1''\<rparr>]" "()"]
  have g: "\<not> fst (check_endpoint_health env_probe_error ''app1'' st0)"
    using conjunct2 [OF conjunct2 [OF conjunct2 [OF t3]]] env_probe_error_pods f
    by (rule mp [OF _ conjI])
  from env_pending_pods a c d e f g show ?thesis by (intro conjI) simp_all
qed

lemma check_env_D: "fst (check_endpoint_health env_D ''app1'' st) = True"
  by (simp add: check_endpoint_health_spec endpointHealthy_def env_D_def quiet_env_def
        three_pods_def has_ip_def)

lemma monitor_env_D: "fst (monitor_lfr_health env_D st0) = Inr [(''app1'', False)]"
proof -
  have l: "list_namespaced_deployment env_D (world st0) = (Returns [dep_D], ())"
    by (simp add: env_D_def)
  have m: "map_of (labels dep_D) ''source'' = Some ''app1''"
    by (simp add: dep_D_def)
  have w: "\<not> workloadHealthy dep_D"
    by (simp add: workloadHealthy_def dep_D_def)
  show ?thesis
    by (simp add: monitor_lfr_health_Returns [OF l] monitor_loop_Cons [OF m] w
          del: monitor_loop.simps(2))
qed

lemma monitor_lfr_health_verdict:
  assumes run: "monitor_lfr_health env st = (Inr health_status, st')"
      and v: "map_of health_status n = Some b"
  shows "\<exists>ds w1 d w_a. list_namespaced_deployment env (world st) = (Returns ds, w1) \<and> d \<in> set ds
         \<and> map_of (labels d) ''source'' = Some n
         \<and> b = (workloadHealthy d \<and> endpointHealthy env n w_a)"
proof -
  obtain r w1 where l: "list_namespaced_deployment env (world st) = (r, w1)"
    by (cases "list_namespaced_deployment env (world st)")
  show ?thesis
  proof (cases r)
    case Raises
    with l have "fst (list_namespaced_deployment env (world st)) = Raises" by simp
    from monitor_lfr_health_Raises [OF this] run have "health_status = []" by simp
    with v show ?thesis by simp
  next
    case (Returns ds)
    let ?st1 = "\<lparr>world = w1, trace = trace st @ [ListDeployment]\<rparr>"
    obtain e hs st2 where m: "monitor_loop env ds [] ?st1 = (e, hs, st2)"
      by (cases "monitor_loop env ds [] ?st1")
    from l Returns have l': "list_namespaced_deployment env (world st) = (Returns ds, w1)" by simp
    from monitor_lfr_health_Returns [OF l'] run m have "hs = health_status"
      by (cases e) simp_all
    with m v monitor_loop_verdict [of env ds "[]" ?st1 e hs st2 n b]
    obtain d st_a where "d \<in> set ds" "map_of (labels d) ''source'' = Some n"
      "b = (workloadHealthy d \<and> fst (check_endpoint_health env n st_a))"
      by auto
    with l' show ?thesis
      by (auto simp: check_endpoint_health_spec)
  qed
qed

lemma probe_pods_world:
  "world st = world st' \<Longrightarrow>
   fst (probe_pods env ps st) = fst (probe_pods env ps st')
   \<and> world (snd (probe_pods env ps st)) = world (snd (probe_pods env ps st'))"
proof (induction ps arbitrary: st st')
  case Nil
  then show ?case by simp
next
  case (Cons p ps)
  show ?case
  proof (cases "has_ip p")
    case False
    with Cons.IH [OF Cons.prems] show ?thesis by simp
  next
    case True
    obtain r w1 where g: "requests_get env (health_url p) (world st') = (r, w1)"
      by (cases "requests_get env (health_url p) (world st')")
    let ?a = "\<lparr>world = w1, trace = trace st @ [HttpGet (health_url p)]\<rparr>"
    let ?b = "\<lparr>world = w1, trace = trace st' @ [HttpGet (health_url p)]\<rparr>"
    have "world ?a = world ?b" by simp
    note ih = Cons.IH [OF this]
    show ?thesis
    proof (cases r)
      case Raises
      with True g Cons.prems show ?thesis by (simp add: call_eq world_log)
    next
      case (Returns status_code)
      with True g Cons.prems ih show ?thesis by (simp add: call_eq)
    qed
  qed
qed

lemma check_endpoint_health_world:
  "world (snd (check_endpoint_health env n st)) =
     world (snd (check_endpoint_health env n \<lparr>world = world st, trace = []\<rparr>))"
proof -
  obtain r w1 where l: "list_namespaced_pod env (pod_selector n) (world st) = (r, w1)"
    by (cases "list_namespaced_pod env (pod_selector n) (world st)")
  show ?thesis
  proof (cases r)
    case Raises
    with l show ?thesis by (simp add: check_endpoint_health_def call_eq world_log)
  next
    case (Returns pods)
    have "world \<lparr>world = w1, trace = trace st @ [ListPod (pod_selector n)]\<rparr> =
          world \<lparr>world = w1, trace = [] @ [ListPod (pod_selector n)]\<rparr>" by simp
    from probe_pods_world [OF this, of env pods] Returns l show ?thesis
      by (simp add: check_endpoint_health_def call_eq)
  qed
qed

lemma monitor_loop_prefix:
  "\<forall>x \<in> set pre. map_of (labels x) ''source'' \<noteq> None \<Longrightarrow>
   \<exists>hs1 st1. monitor_loop env (pre @ rest) hs st = monitor_loop env rest hs1 st1
            \<and> world st1 = evaluation_world env pre (world st)"
proof (induction pre arbitrary: hs st)
  case Nil
  show ?case by (intro exI [of _ hs] exI [of _ st]) simp
next
  case (Cons x xs)
  from Cons.prems obtain m where m: "map_of (labels x) ''source'' = Some m" by auto
  from Cons.prems have r: "\<forall>x \<in> set xs. map_of (labels x) ''source'' \<noteq> None" by simp
  let ?v = "workloadHealthy x \<and> fst (check_endpoint_health env m st)"
  let ?st = "emit (SetHealthStatus m ?v) (snd (check_endpoint_health env m st))"
  from Cons.IH [OF r, of "AList.update m ?v hs" ?st] obtain hs1 st1 where
    a: "monitor_loop env (xs @ rest) (AList.update m ?v hs) ?st = monitor_loop env rest hs1 st1"
    and b: "world st1 = evaluation_world env xs (world ?st)"
    by blast
  have "world ?st = world (snd (check_endpoint_health env m \<lparr>world = world st, trace = []\<rparr>))"
    by (simp add: world_emit check_endpoint_health_world [of env m st])
  with b m have "world st1 = evaluation_world env (x # xs) (world st)" by simp
  moreover from a m have "monitor_loop env ((x # xs) @ rest) hs st = monitor_loop env rest hs1 st1"
    by (simp add: monitor_loop_Cons del: monitor_loop.simps)
  ultimately show ?case by blast
qed

lemma monitor_loop_other_keys:
  "\<forall>x \<in> set post. map_of (labels x) ''source'' \<noteq> Some n \<Longrightarrow>
   monitor_loop env post hs st = (r, hs', st') \<Longrightarrow> map_of hs' n = map_of hs n"
proof (induction post arbitrary: hs st)
  case Nil
  then show ?case by simp
next
  case (Cons x xs)
  show ?case
  proof (cases "map_of (labels x) ''source''")
    case None
    with Cons.prems(2) show ?thesis
      by (simp del: monitor_loop.simps add: monitor_loop_Cons_unlabelled)
  next
    case (Some m)
    with Cons.prems(1) have ne: "m \<noteq> n" by auto
    from Cons.prems(1) have r: "\<forall>x \<in> set xs. map_of (labels x) ''source'' \<noteq> Some n" by simp
    let ?v = "workloadHealthy x \<and> fst (check_endpoint_health env m st)"
    from Cons.prems(2) Some
    have "monitor_loop env xs (AList.update m ?v hs)
            (emit (SetHealthStatus m ?v) (snd (check_endpoint_health env m st))) = (r, hs', st')"
      by (simp only: monitor_loop_Cons)
    from Cons.IH [OF r this] ne show ?thesis by (simp add: update_conv')
  qed
qed

text \<open>
  Claim C3. Let the listing return deployments that all carry a \<open>source\<close> label, and let
  \<open>d\<close> be the last deployment of the source \<open>n\<close> among them. The health evaluation
  returns normally and its verdict for \<open>n\<close> is the conjunction of the workload verdict
  of \<open>d\<close>, the equality of its available and its desired replica count, and of the
  endpoint verdict of \<open>n\<close> in the world in which \<open>d\<close> is evaluated: false when either
  is false, true only when both are true.
\<close>

theorem combinedHealthy_conjunction:
  assumes "list_namespaced_deployment env (world st) = (Returns (pre @ d # post), w1)"
      and "\<forall>x \<in> set (pre @ d # post). map_of (labels x) ''source'' \<noteq> None"
      and "map_of (labels d) ''source'' = Some n"
      and "\<forall>x \<in> set post. map_of (labels x) ''source'' \<noteq> Some n"
  shows "\<exists>health_status st'. monitor_lfr_health env st = (Inr health_status, st')
           \<and> map_of health_status n =
               Some (available_replicas d = Some (replicas d)
                     \<and> endpointHealthy env n (evaluation_world env pre w1))"
proof -
  let ?st1 = "\<lparr>world = w1, trace = trace st @ [ListDeployment]\<rparr>"
  from assms(2) have lp: "\<forall>x \<in> set pre. map_of (labels x) ''source'' \<noteq> None" by simp
  from monitor_loop_prefix [OF lp, of env "d # post" "[]" ?st1] obtain hs1 s1 where
    a: "monitor_loop env (pre @ d # post) [] ?st1 = monitor_loop env (d # post) hs1 s1"
    and w: "world s1 = evaluation_world env pre w1"
    by auto
  let ?v = "workloadHealthy d \<and> fst (check_endpoint_health env n s1)"
  let ?s2 = "emit (SetHealthStatus n ?v) (snd (check_endpoint_health env n s1))"
  obtain r hs st' where m: "monitor_loop env post (AList.update n ?v hs1) ?s2 = (r, hs, st')"
    by (cases "monitor_loop env post (AList.update n ?v hs1) ?s2")
  from a m assms(3) have run: "monitor_loop env (pre @ d # post) [] ?st1 = (r, hs, st')"
    by (simp add: monitor_loop_Cons del: monitor_loop.simps)
  from monitor_loop_labelled [OF assms(2), of env "[]" ?st1] run have "r = None" by simp
  with run monitor_lfr_health_Returns [OF assms(1)]
  have res: "monitor_lfr_health env st = (Inr hs, st')" by simp
  from monitor_loop_other_keys [OF assms(4) m] have "map_of hs n = Some ?v"
    by (simp add: update_conv')
  with w have "map_of hs n = Some (available_replicas d = Some (replicas d)
                     \<and> endpointHealthy env n (evaluation_world env pre w1))"
    by (simp add: workloadHealthy_def check_endpoint_health_spec)
  with res show ?thesis by blast
qed

lemma endpoint_env_two: "endpointHealthy env_two n w"
  by (simp add: endpointHealthy_def env_two_def quiet_env_def three_pods_def has_ip_def)

lemma endpoint_env_all_500: "\<not> endpointHealthy env_all_500 n w"
  by (simp add: endpointHealthy_def env_all_500_def quiet_env_def three_pods_def has_ip_def)

text \<open>
  Two deployments with healthy members: the first has two of its three replicas
  available and its verdict is false (the fourth scenario of the specification), the
  second has three of three and its verdict is true (the third scenario). With three of
  three replicas available and members that answer 500 the verdict is false.
\<close>

theorem combinedHealthy_conjunction_witness:
  "list_namespaced_deployment env_two (world st0) = (Returns ([] @ dep_D # [dep2]), ())
   \<and> map_of (labels dep_D) ''source'' = Some ''app1''
   \<and> map_of (labels dep2) ''source'' = Some ''app2''
   \<and> (\<exists>health_status st'. monitor_lfr_health env_two st0 = (Inr health_status, st')
         \<and> map_of health_status ''app1'' = Some False)
   \<and> (\<exists>health_status st'. monitor_lfr_health env_two st0 = (Inr health_status, st')
         \<and> map_of health_status ''app2'' = Some True)
   \<and> list_namespaced_deployment env_all_500 (world st0) = (Returns ([] @ dep2 # []), ())
   \<and> (\<exists>health_status st'. monitor_lfr_health env_all_500 st0 = (Inr health_status, st')
         \<and> map_of health_status ''app2'' = Some False)"
proof -
  have l1: "list_namespaced_deployment env_two (world st0) = (Returns ([] @ dep_D # [dep2]), ())"
    by (simp add: env_two_def)
  have l2: "list_namespaced_deployment env_two (world st0) = (Returns ([dep_D] @ dep2 # []), ())"
    by (simp add: env_two_def)
  have l3: "list_namespaced_deployment env_all_500 (world st0) = (Returns ([] @ dep2 # []), ())"
    by (simp add: env_all_500_def)
  have n1: "map_of (labels dep_D) ''source'' = Some ''app1''" by (simp add: dep_D_def)
  have n2: "map_of (labels dep2) ''source'' = Some ''app2''" by (simp add: dep2_def)
  have a1: "\<forall>x \<in> set ([] @ dep_D # [dep2]). map_of (labels x) ''source'' \<noteq> None"
    using n1 n2 by simp
  have a2: "\<forall>x \<in> set ([dep_D] @ dep2 # []). map_of (labels x) ''source'' \<noteq> None"
    using n1 n2 by simp
  have a3: "\<forall>x \<in> set ([] @ dep2 # []). map_of (labels x) ''source'' \<noteq> None"
    using n2 by simp
  have p1: "\<forall>x \<in> set [dep2]. map_of (labels x) ''source'' \<noteq> Some ''app1''"
    using n2 by simp
  have p2: "\<forall>x \<in> set ([] :: deployment list). map_of (labels x) ''source'' \<noteq> Some ''app2''"
    by simp
  have v1: "(available_replicas dep_D = Some (replicas dep_D)
              \<and> endpointHealthy env_two ''app1'' (evaluation_world env_two [] ())) = False"
    by (simp add: dep_D_def)
  have v2: "(available_replicas dep2 = Some (replicas dep2)
              \<and> endpointHealthy env_two ''app2'' (evaluation_world env_two [dep_D] ())) = True"
    by (simp add: dep2_def endpoint_env_two)
  have v3: "(available_replicas dep2 = Some (replicas dep2)
              \<and> endpointHealthy env_all_500 ''app2'' (evaluation_world env_all_500 [] ())) = False"
    by (simp add: endpoint_env_all_500)
  from combinedHealthy_conjunction [OF l1 a1 n1 p1]
  have c1: "\<exists>health_status st'. monitor_lfr_health env_two st0 = (Inr health_status, st')
         \<and> map_of health_status ''app1'' = Some False"
    by (simp only: v1)
  from combinedHealthy_conjunction [OF l2 a2 n2 p2]
  have c2: "\<exists>health_status st'. monitor_lfr_health env_two st0 = (Inr health_status, st')
         \<and> map_of health_status ''app2'' = Some True"
    by (simp only: v2)
  from combinedHealthy_conjunction [OF l3 a3 n2 p2]
  have c3: "\<exists>health_status st'. monitor_lfr_health env_all_500 st0 = (Inr health_status, st')
         \<and> map_of health_status ''app2'' = Some False"
    by (simp only: v3)
  from l1 n1 n2 c1 c2 l3 c3 show ?thesis by (intro conjI)
qed

text \<open>
  Claim C9. When the deployments of a source report no available replica count, the
  health evaluation returns normally and its verdict for the source is false, whatever
  the probes of its members answer.
\<close>

theorem unreported_replicas_unhealthy:
  assumes "list_namespaced_deployment env (world st) = (Returns ds, w1)"
      and "\<forall>x \<in> set ds. map_of (labels x) ''source'' \<noteq> None"
      and "d \<in> set ds" and "map_of (labels d) ''source'' = Some n"
      and "\<forall>x \<in> set ds. map_of (labels x) ''source'' = Some n \<longrightarrow> available_replicas x = None"
  shows "\<exists>health_status st'. monitor_lfr_health env st = (Inr health_status, st')
           \<and> map_of health_status n = Some False"
proof -
  let ?st1 = "\<lparr>world = w1, trace = trace st @ [ListDeployment]\<rparr>"
  obtain e hs st2 where m: "monitor_loop env ds [] ?st1 = (e, hs, st2)"
    by (cases "monitor_loop env ds [] ?st1")
  from monitor_loop_labelled [OF assms(2), of env "[]" ?st1] m have e: "e = None" by simp
  with m monitor_lfr_health_Returns [OF assms(1)]
  have run: "monitor_lfr_health env st = (Inr hs, st2)" by simp
  from m e have "monitor_loop env ds [] ?st1 = (None, hs, st2)" by simp
  from monitor_loop_adds_keys [OF this assms(3) assms(4)]
  obtain b where b: "map_of hs n = Some b" by auto
  from monitor_lfr_health_verdict [OF run b] assms(1)
  obtain x w_a where "x \<in> set ds" "map_of (labels x) ''source'' = Some n"
    "b = (workloadHealthy x \<and> endpointHealthy env n w_a)"
    by auto
  with assms(5) have "b = False" by (auto simp: workloadHealthy_def)
  with run b show ?thesis by simp
qed

theorem unreported_replicas_unhealthy_witness:
  "list_namespaced_deployment env_unreported (world st0) = (Returns [dep_unreported], ())
   \<and> map_of (labels dep_unreported) ''source'' = Some ''app1''
   \<and> available_replicas dep_unreported = None
   \<and> endpointHealthy env_unreported ''app1'' ()
   \<and> (\<exists>health_status st'. monitor_lfr_health env_unreported st0 = (Inr health_status, st')
           \<and> map_of health_status ''app1'' = Some False)"
proof -
  have l: "list_namespaced_deployment env_unreported (world st0) = (Returns [dep_unreported], ())"
    by (simp add: env_unreported_def)
  have m: "map_of (labels dep_unreported) ''source'' = Some ''app1''"
    by (simp add: dep_unreported_def)
  have a: "available_replicas dep_unreported = None"
    by (simp add: dep_unreported_def)
  have e: "endpointHealthy env_unreported ''app1'' ()"
    by (simp add: endpointHealthy_def env_unreported_def quiet_env_def three_pods_def has_ip_def)
  have h1: "\<forall>x \<in> set [dep_unreported]. map_of (labels x) ''source'' \<noteq> None"
    using m by simp
  have h2: "dep_unreported \<in> set [dep_unreported]" by simp
  have h3: "\<forall>x \<in> set [dep_unreported]. map_of (labels x) ''source'' = Some ''app1''
              \<longrightarrow> available_replicas x = None"
    using a by simp
  from unreported_replicas_unhealthy [OF l h1 h2 m h3] l m a e show ?thesis by (intro conjI)
qed

text \<open>
  Claim C10. The health evaluation never raises \<open>ApiException\<close>. When the listing of the
  deployments raises, it returns the dictionary of the verdicts found so far, which is
  empty: no source is reported, healthy or unhealthy.
\<close>

theorem monitor_lfr_health_no_ApiException:
  "fst (monitor_lfr_health env st) \<noteq> Inl ApiException
   \<and> (fst (list_namespaced_deployment env (world st)) = Raises
        \<longrightarrow> fst (monitor_lfr_health env st) = Inr [])"
proof (intro conjI impI)
  obtain r w1 where l: "list_namespaced_deployment env (world st) = (r, w1)"
    by (cases "list_namespaced_deployment env (world st)")
  show "fst (monitor_lfr_health env st) \<noteq> Inl ApiException"
  proof (cases r)
    case Raises
    with l have "fst (list_namespaced_deployment env (world st)) = Raises" by simp
    from monitor_lfr_health_Raises [OF this] show ?thesis by simp
  next
    case (Returns ds)
    let ?st1 = "\<lparr>world = w1, trace = trace st @ [ListDeployment]\<rparr>"
    obtain e hs st2 where m: "monitor_loop env ds [] ?st1 = (e, hs, st2)"
      by (cases "monitor_loop env ds [] ?st1")
    from monitor_loop_no_ApiException [of env ds "[]" ?st1] m
    have ne: "e \<noteq> Some ApiException" by simp
    from l Returns have "list_namespaced_deployment env (world st) = (Returns ds, w1)" by simp
    from monitor_lfr_health_Returns [OF this] m ne show ?thesis
      by (cases e) auto
  qed
next
  assume "fst (list_namespaced_deployment env (world st)) = Raises"
  from monitor_lfr_health_Raises [OF this] show "fst (monitor_lfr_health env st) = Inr []"
    by simp
qed

theorem monitor_lfr_health_no_ApiException_witness:
  "fst (list_namespaced_deployment env_list_fails (world st0)) = Raises
   \<and> fst (monitor_lfr_health env_list_fails st0) = Inr []"
proof -
  have l: "fst (list_namespaced_deployment env_list_fails (world st0)) = Raises"
    by (simp add: env_list_fails_def)
  from mp [OF conjunct2 [OF monitor_lfr_health_no_ApiException [of env_list_fails st0]] l] l
  show ?thesis by (intro conjI)
qed

section \<open>Properties of the recovery episode\<close>

lemma counts_append:
  "restarts (xs @ ys) = restarts xs + restarts ys"
  "attempts (xs @ ys) = attempts xs + attempts ys"
  "api_errors (xs @ ys) = api_errors xs + api_errors ys"
  by (simp_all add: restarts_def attempts_def api_errors_def)

lemma counts_probe_events:
  assumes "list_all is_probe_event evs"
  shows "restarts evs = 0" and "attempts evs = 0" and "api_errors evs = 0"
    and "ListDeployment \<notin> set evs"
proof -
  have "\<And>e. is_probe_event e \<Longrightarrow> \<not> is_restart e \<and> \<not> is_attempt e \<and> \<not> is_api_error e \<and> e \<noteq> ListDeployment"
  proof -
    fix e assume "is_probe_event e"
    then show "\<not> is_restart e \<and> \<not> is_attempt e \<and> \<not> is_api_error e \<and> e \<noteq> ListDeployment"
      by (cases e rule: is_probe_event.cases) auto
  qed
  with assms show "restarts evs = 0" and "attempts evs = 0" and "api_errors evs = 0"
    and "ListDeployment \<notin> set evs"
    by (auto simp: restarts_def attempts_def api_errors_def list_all_iff filter_empty_conv)
qed

lemma probe_pods_trace:
  "\<exists>evs. trace (snd (probe_pods env pods st)) = trace st @ evs \<and> list_all is_probe_event evs"
proof (induction pods arbitrary: st)
  case Nil
  show ?case by simp
next
  case (Cons p ps)
  show ?case
  proof (cases "has_ip p")
    case False
    then show ?thesis using Cons.IH [of st] by simp
  next
    case True
    let ?st1 = "\<lparr>world = snd (requests_get env (health_url p) (world st)),
                 trace = trace st @ [HttpGet (health_url p)]\<rparr>"
    show ?thesis
    proof (cases "fst (requests_get env (health_url p) (world st))")
      case Raises
      with True show ?thesis by (simp add: call_eq trace_log)
    next
      case (Returns status_code)
      show ?thesis
      proof (cases "status_code = 200")
        case False
        with True Returns show ?thesis by (simp add: call_eq)
      next
        case ok: True
        from Cons.IH [of ?st1] obtain evs where
          "trace (snd (probe_pods env ps ?st1)) = trace ?st1 @ evs" "list_all is_probe_event evs"
          by blast
        with True Returns ok show ?thesis by (simp add: call_eq)
      qed
    qed
  qed
qed

lemma check_endpoint_health_trace:
  "\<exists>evs. trace (snd (check_endpoint_health env n st)) = trace st @ evs \<and> list_all is_probe_event evs"
proof (cases "fst (list_namespaced_pod env (pod_selector n) (world st))")
  case Raises
  then show ?thesis by (simp add: check_endpoint_health_def call_eq trace_log)
next
  case (Returns pods)
  let ?st1 = "\<lparr>world = snd (list_namespaced_pod env (pod_selector n) (world st)),
               trace = trace st @ [ListPod (pod_selector n)]\<rparr>"
  from probe_pods_trace [of env pods ?st1] obtain evs where
    "trace (snd (probe_pods env pods ?st1)) = trace ?st1 @ evs" "list_all is_probe_event evs"
    by blast
  with Returns show ?thesis by (simp add: check_endpoint_health_def call_eq)
qed

lemma recovery_loop_exhausted:
  "\<not> rc < max_retries \<Longrightarrow> recovery_loop env n rc st = (Failed, log ERROR ''Failed to recover'' st)"
  by (subst recovery_loop.simps) simp

lemma recovery_loop_read_raises:
  assumes "rc < max_retries"
      and "fst (read_namespaced_deployment env (lfr_name n) (world st)) = Raises"
  shows "recovery_loop env n rc st =
           recovery_loop env n (rc + 1)
             (sleep 5 (log ERROR ''Recovery attempt failed''
                (snd (call (ReadDeployment (lfr_name n)) (read_namespaced_deployment env (lfr_name n))
                        (log INFO ''Recovery attempt'' st)))))"
  using assms
  by (subst recovery_loop.simps)
     (simp add: Let_def call_eq world_log split: prod.splits outcome.splits)

lemma recovery_loop_patch_raises:
  assumes "rc < max_retries"
      and "call (ReadDeployment (lfr_name n)) (read_namespaced_deployment env (lfr_name n))
             (log INFO ''Recovery attempt'' st) = (Returns d, st2)"
      and "fst (patch_namespaced_deployment env (lfr_name n) PatchRestartedAt (world st2)) = Raises"
  shows "recovery_loop env n rc st =
           recovery_loop env n (rc + 1)
             (sleep 5 (log ERROR ''Recovery attempt failed''
                (snd (call (PatchNamespacedDeployment (lfr_name n) PatchRestartedAt)
                        (patch_namespaced_deployment env (lfr_name n) PatchRestartedAt) st2))))"
  using assms
  by (subst recovery_loop.simps)
     (simp add: Let_def call_eq split: prod.splits outcome.splits)

lemma recovery_loop_checked:
  assumes "rc < max_retries"
      and "call (ReadDeployment (lfr_name n)) (read_namespaced_deployment env (lfr_name n))
             (log INFO ''Recovery attempt'' st) = (Returns d, st2)"
      and "call (PatchNamespacedDeployment (lfr_name n) PatchRestartedAt)
             (patch_namespaced_deployment env (lfr_name n) PatchRestartedAt) st2 = (Returns u, st3)"
  shows "recovery_loop env n rc st =
           (if fst (check_endpoint_health env n (sleep 10 st3))
            then (Healthy, log INFO ''Recovery successful''
                    (snd (check_endpoint_health env n (sleep 10 st3))))
            else recovery_loop env n (rc + 1)
                   (sleep 5 (snd (check_endpoint_health env n (sleep 10 st3)))))"
  using assms
  by (subst recovery_loop.simps)
     (simp add: Let_def split: prod.splits outcome.splits bool.splits)

lemma recovery_loop_trace:
  "\<exists>evs. trace (snd (recovery_loop env n rc st)) = trace st @ evs
         \<and> attempts evs \<le> max_retries - rc
         \<and> restarts evs \<le> attempts evs
         \<and> attempts evs \<le> restarts evs + api_errors evs
         \<and> api_errors evs \<le> attempts evs
         \<and> (fst (recovery_loop env n rc st) = Failed \<longrightarrow> attempts evs = max_retries - rc)
         \<and> ListDeployment \<notin> set evs"
proof (induction "max_retries - rc" arbitrary: rc st)
  case 0
  then have "\<not> rc < max_retries" by simp
  then have "recovery_loop env n rc st = (Failed, log ERROR ''Failed to recover'' st)"
    by (rule recovery_loop_exhausted)
  with 0 show ?case
    by (simp add: trace_log attempts_def restarts_def api_errors_def)
next
  case (Suc k)
  then have lt: "rc < max_retries" and k: "k = max_retries - (rc + 1)" by simp_all
  let ?name = "lfr_name n"
  let ?st1 = "log INFO ''Recovery attempt'' st"
  let ?c1 = "call (ReadDeployment ?name) (read_namespaced_deployment env ?name) ?st1"
  have t1: "trace (snd ?c1) = trace st @ [Log INFO ''Recovery attempt'', ReadDeployment ?name]"
    by (simp add: trace_call trace_log)
  show ?case
  proof (cases "fst (read_namespaced_deployment env ?name (world st))")
    case Raises
    let ?next = "sleep 5 (log ERROR ''Recovery attempt failed'' (snd ?c1))"
    from lt Raises have eq: "recovery_loop env n rc st = recovery_loop env n (rc + 1) ?next"
      by (rule recovery_loop_read_raises)
    have tn: "trace ?next = trace st @ [Log INFO ''Recovery attempt'', ReadDeployment ?name,
                Log ERROR ''Recovery attempt failed'', Sleep 5]"
      by (simp add: trace_sleep trace_log t1)
    from Suc.hyps(1) [OF k, of ?next] obtain evs where
      evs: "trace (snd (recovery_loop env n (rc + 1) ?next)) = trace ?next @ evs"
        "attempts evs \<le> max_retries - (rc + 1)" "restarts evs \<le> attempts evs"
        "attempts evs \<le> restarts evs + api_errors evs" "api_errors evs \<le> attempts evs"
        "fst (recovery_loop env n (rc + 1) ?next) = Failed \<longrightarrow> attempts evs = max_retries - (rc + 1)"
        "ListDeployment \<notin> set evs"
      by blast
    let ?all = "[Log INFO ''Recovery attempt'', ReadDeployment ?name,
                 Log ERROR ''Recovery attempt failed'', Sleep 5] @ evs"
    have "trace (snd (recovery_loop env n rc st)) = trace st @ ?all"
      using evs(1) tn eq by simp
    moreover have "attempts ?all = Suc (attempts evs)" "restarts ?all = restarts evs"
      "api_errors ?all = Suc (api_errors evs)"
      by (simp_all add: attempts_def restarts_def api_errors_def)
    moreover have "ListDeployment \<notin> set ?all" using evs(7) by simp
    ultimately show ?thesis using evs(2-6) lt eq
      by (intro exI [of _ ?all]) auto
  next
    case (Returns d)
    obtain st2 where c1: "?c1 = (Returns d, st2)"
      using Returns by (cases ?c1) (simp add: call_eq world_log)
    then have t2: "trace st2 = trace st @ [Log INFO ''Recovery attempt'', ReadDeployment ?name]"
      using t1 by simp
    let ?c2 = "call (PatchNamespacedDeployment ?name PatchRestartedAt)
                 (patch_namespaced_deployment env ?name PatchRestartedAt) st2"
    have t3: "trace (snd ?c2) = trace st @ [Log INFO ''Recovery attempt'', ReadDeployment ?name,
                PatchNamespacedDeployment ?name PatchRestartedAt]"
      by (simp add: trace_call t2)
    show ?thesis
    proof (cases "fst (patch_namespaced_deployment env ?name PatchRestartedAt (world st2))")
      case Raises
      let ?next = "sleep 5 (log ERROR ''Recovery attempt failed'' (snd ?c2))"
      from lt c1 Raises have eq: "recovery_loop env n rc st = recovery_loop env n (rc + 1) ?next"
        by (rule recovery_loop_patch_raises)
      have tn: "trace ?next = trace st @ [Log INFO ''Recovery attempt'', ReadDeployment ?name,
                  PatchNamespacedDeployment ?name PatchRestartedAt,
                  Log ERROR ''Recovery attempt failed'', Sleep 5]"
        by (simp add: trace_sleep trace_log t3)
      from Suc.hyps(1) [OF k, of ?next] obtain evs where
        evs: "trace (snd (recovery_loop env n (rc + 1) ?next)) = trace ?next @ evs"
          "attempts evs \<le> max_retries - (rc + 1)" "restarts evs \<le> attempts evs"
          "attempts evs \<le> restarts evs + api_errors evs" "api_errors evs \<le> attempts evs"
          "fst (recovery_loop env n (rc + 1) ?next) = Failed \<longrightarrow> attempts evs = max_retries - (rc + 1)"
          "ListDeployment \<notin> set evs"
        by blast
      let ?all = "[Log INFO ''Recovery attempt'', ReadDeployment ?name,
                   PatchNamespacedDeployment ?name PatchRestartedAt,
                   Log ERROR ''Recovery attempt failed'', Sleep 5] @ evs"
      have "trace (snd (recovery_loop env n rc st)) = trace st @ ?all"
        using evs(1) tn eq by simp
      moreover have "attempts ?all = Suc (attempts evs)" "restarts ?all = Suc (restarts evs)"
        "api_errors ?all = Suc (api_errors evs)"
        by (simp_all add: attempts_def restarts_def api_errors_def)
      moreover have "ListDeployment \<notin> set ?all" using evs(7) by simp
      ultimately show ?thesis using evs(2-6) lt eq
        by (intro exI [of _ ?all]) auto
    next
      case (Returns u)
      obtain st3 where c2: "?c2 = (Returns u, st3)"
        using Returns by (cases ?c2) (simp add: call_eq)
      then have t3': "trace st3 = trace st @ [Log INFO ''Recovery attempt'', ReadDeployment ?name,
                PatchNamespacedDeployment ?name PatchRestartedAt]"
        using t3 by simp
      let ?c3 = "check_endpoint_health env n (sleep 10 st3)"
      from check_endpoint_health_trace [of env n "sleep 10 st3"] obtain pevs where
        pevs: "trace (snd ?c3) = trace (sleep 10 st3) @ pevs" "list_all is_probe_event pevs"
        by blast
      note pc = counts_probe_events [OF pevs(2)]
      let ?pre = "[Log INFO ''Recovery attempt'', ReadDeployment ?name,
                   PatchNamespacedDeployment ?name PatchRestartedAt, Sleep 10] @ pevs"
      have t4: "trace (snd ?c3) = trace st @ ?pre"
        using pevs(1) t3' by (simp add: trace_sleep)
      have cp: "attempts ?pre = 1" "restarts ?pre = 1" "api_errors ?pre = 0"
        using pc(1-3) by (simp_all add: counts_append) (simp_all add: attempts_def restarts_def api_errors_def)
      have lp: "ListDeployment \<notin> set ?pre" using pc(4) by simp
      from lt c1 c2 have eq: "recovery_loop env n rc st =
           (if fst ?c3 then (Healthy, log INFO ''Recovery successful'' (snd ?c3))
            else recovery_loop env n (rc + 1) (sleep 5 (snd ?c3)))"
        by (rule recovery_loop_checked)
      show ?thesis
      proof (cases "fst ?c3")
        case True
        let ?all = "?pre @ [Log INFO ''Recovery successful'']"
        from True eq have r: "recovery_loop env n rc st = (Healthy, log INFO ''Recovery successful'' (snd ?c3))"
          by simp
        then have "trace (snd (recovery_loop env n rc st)) = trace st @ ?all"
          using t4 by (simp add: trace_log)
        moreover have "attempts ?all = 1" "restarts ?all = 1" "api_errors ?all = 0"
          using cp by (simp_all only: counts_append) (simp_all add: attempts_def restarts_def api_errors_def)
        moreover have "ListDeployment \<notin> set ?all" using lp by simp
        ultimately show ?thesis using lt r
          by (intro exI [of _ ?all]) auto
      next
        case False
        let ?next = "sleep 5 (snd ?c3)"
        from False eq have r: "recovery_loop env n rc st = recovery_loop env n (rc + 1) ?next"
          by simp
        have tn: "trace ?next = trace st @ ?pre @ [Sleep 5]"
          using t4 by (simp add: trace_sleep)
        from Suc.hyps(1) [OF k, of ?next] obtain evs where
          evs: "trace (snd (recovery_loop env n (rc + 1) ?next)) = trace ?next @ evs"
            "attempts evs \<le> max_retries - (rc + 1)" "restarts evs \<le> attempts evs"
            "attempts evs \<le> restarts evs + api_errors evs" "api_errors evs \<le> attempts evs"
            "fst (recovery_loop env n (rc + 1) ?next) = Failed \<longrightarrow> attempts evs = max_retries - (rc + 1)"
            "ListDeployment \<notin> set evs"
          by blast
        let ?all = "?pre @ [Sleep 5] @ evs"
        have "trace (snd (recovery_loop env n rc st)) = trace st @ ?all"
          using evs(1) tn r by simp
        moreover have "attempts ?all = Suc (attempts evs)" "restarts ?all = Suc (restarts evs)"
          "api_errors ?all = api_errors evs"
          using cp by (simp_all only: counts_append) (simp_all add: attempts_def restarts_def api_errors_def)
        moreover have "ListDeployment \<notin> set ?all" using lp evs(7) by simp
        ultimately show ?thesis using evs(2-6) lt r
          by (intro exI [of _ ?all]) auto
      qed
    qed
  qed
qed

text \<open>
  Claim C2. A recovery episode always returns, through one of its two exits. It makes at
  most three attempts; every attempt issues at most one restart action, and an attempt
  without a restart action or with a failed one is an attempt in which the cluster
  raised, which the loop logs and counts as an attempt. An episode that ends at \<open>Failed\<close>
  has made exactly three attempts; when the cluster raised in none of them, it has issued
  exactly three restart actions.
\<close>

theorem recovery_episode_bounded:
  "trace (snd (handle_unhealthy_deployment env n st)) = trace st @ episode env n st
   \<and> max_retries = 3
   \<and> attempts (episode env n st) \<le> max_retries
   \<and> restarts (episode env n st) \<le> attempts (episode env n st)
   \<and> api_errors (episode env n st) \<le> attempts (episode env n st)
   \<and> attempts (episode env n st) \<le> restarts (episode env n st) + api_errors (episode env n st)
   \<and> (fst (handle_unhealthy_deployment env n st) = Healthy
        \<or> fst (handle_unhealthy_deployment env n st) = Failed)
   \<and> (fst (handle_unhealthy_deployment env n st) = Failed
        \<longrightarrow> attempts (episode env n st) = max_retries)
   \<and> (fst (handle_unhealthy_deployment env n st) = Failed \<and> api_errors (episode env n st) = 0
        \<longrightarrow> restarts (episode env n st) = 3)"
proof -
  from recovery_loop_trace [of env n 0 st] obtain evs where
    evs: "trace (snd (recovery_loop env n 0 st)) = trace st @ evs"
      "attempts evs \<le> max_retries - 0" "restarts evs \<le> attempts evs"
      "attempts evs \<le> restarts evs + api_errors evs" "api_errors evs \<le> attempts evs"
      "fst (recovery_loop env n 0 st) = Failed \<longrightarrow> attempts evs = max_retries - 0"
    by blast
  from evs(1) have e: "episode env n st = evs"
    by (simp add: episode_def handle_unhealthy_deployment_def)
  have o: "fst (handle_unhealthy_deployment env n st) = Healthy
        \<or> fst (handle_unhealthy_deployment env n st) = Failed"
    by (cases "fst (handle_unhealthy_deployment env n st)") simp_all
  have m: "max_retries = 3" by (simp add: max_retries_def)
  from evs e o m show ?thesis
    by (auto simp: handle_unhealthy_deployment_def)
qed

lemma trace_st0: "trace st0 = []"
  by (simp add: st0_def)

lemma check_env_unhealthy:
  "check_endpoint_health env_unhealthy ''app1'' st =
     (False, \<lparr>world = (), trace = trace st @ [ListPod (pod_selector ''app1''),
                 HttpGet ''http://10.0.0.1:8080/health'']\<rparr>)"
  by (simp add: check_endpoint_health_def call_eq env_unhealthy_def has_ip_def health_url_def)

lemma env_unhealthy_calls:
  "read_namespaced_deployment env_unhealthy n w =
     (Returns \<lparr>metadata_name = n, labels = [], replicas = 1, available_replicas = Some 1\<rparr>, w)"
  "patch_namespaced_deployment env_unhealthy n b w = (Returns (), w)"
  by (simp_all add: env_unhealthy_def quiet_env_def)

lemma run_env_unhealthy:
  "handle_unhealthy_deployment env_unhealthy ''app1'' st0 =
     (Failed, \<lparr>world = (), trace =
        [Log INFO ''Recovery attempt'', ReadDeployment ''lfr-app1'',
         PatchNamespacedDeployment ''lfr-app1'' PatchRestartedAt, Sleep 10,
         ListPod (pod_selector ''app1''), HttpGet ''http://10.0.0.1:8080/health'', Sleep 5,
         Log INFO ''Recovery attempt'', ReadDeployment ''lfr-app1'',
         PatchNamespacedDeployment ''lfr-app1'' PatchRestartedAt, Sleep 10,
         ListPod (pod_selector ''app1''), HttpGet ''http://10.0.0.1:8080/health'', Sleep 5,
         Log INFO ''Recovery attempt'', ReadDeployment ''lfr-app1'',
         PatchNamespacedDeployment ''lfr-app1'' PatchRestartedAt, Sleep 10,
         ListPod (pod_selector ''app1''), HttpGet ''http://10.0.0.1:8080/health'', Sleep 5,
         Log ERROR ''Failed to recover'']\<rparr>)"
  by (simp add: handle_unhealthy_deployment_def recovery_loop.simps max_retries_def
        check_env_unhealthy call_eq log_def sleep_def emit_def lfr_name_def st0_def
        env_unhealthy_calls)

lemma env_read_fails_calls:
  "read_namespaced_deployment env_read_fails n w = (Raises, w)"
  by (simp add: env_read_fails_def)

lemma run_env_read_fails:
  "handle_unhealthy_deployment env_read_fails ''app1'' st0 =
     (Failed, \<lparr>world = (), trace =
        [Log INFO ''Recovery attempt'', ReadDeployment ''lfr-app1'',
         Log ERROR ''Recovery attempt failed'', Sleep 5,
         Log INFO ''Recovery attempt'', ReadDeployment ''lfr-app1'',
         Log ERROR ''Recovery attempt failed'', Sleep 5,
         Log INFO ''Recovery attempt'', ReadDeployment ''lfr-app1'',
         Log ERROR ''Recovery attempt failed'', Sleep 5,
         Log ERROR ''Failed to recover'']\<rparr>)"
  by (simp add: handle_unhealthy_deployment_def recovery_loop.simps max_retries_def
        call_eq log_def sleep_def emit_def lfr_name_def st0_def env_read_fails_calls)

text \<open>
  The last scenario of the specification: the source is unhealthy after each of the three
  restarts; the episode ends at \<open>Failed\<close> with three restart actions. When the cluster
  refuses every read, the episode ends at \<open>Failed\<close> after three attempts, each of them
  logged as failed, and without a restart action.
\<close>

theorem recovery_episode_bounded_witness:
  "fst (handle_unhealthy_deployment env_unhealthy ''app1'' st0) = Failed
   \<and> api_errors (episode env_unhealthy ''app1'' st0) = 0
   \<and> restarts (episode env_unhealthy ''app1'' st0) = 3
   \<and> attempts (episode env_unhealthy ''app1'' st0) = 3
   \<and> fst (handle_unhealthy_deployment env_read_fails ''app1'' st0) = Failed
   \<and> api_errors (episode env_read_fails ''app1'' st0) = 3
   \<and> restarts (episode env_read_fails ''app1'' st0) = 0
   \<and> attempts (episode env_read_fails ''app1'' st0) = max_retries"
proof -
  note t = recovery_episode_bounded [of env_unhealthy "''app1''" st0]
  have f: "fst (handle_unhealthy_deployment env_unhealthy ''app1'' st0) = Failed"
    by (simp add: run_env_unhealthy)
  have a: "api_errors (episode env_unhealthy ''app1'' st0) = 0"
    by (simp add: episode_def run_env_unhealthy trace_st0 api_errors_def)
  from t have "fst (handle_unhealthy_deployment env_unhealthy ''app1'' st0) = Failed
        \<and> api_errors (episode env_unhealthy ''app1'' st0) = 0
        \<longrightarrow> restarts (episode env_unhealthy ''app1'' st0) = 3"
    by (elim conjE)
  from mp [OF this conjI [OF f a]] have r: "restarts (episode env_unhealthy ''app1'' st0) = 3" .
  from t have m: "max_retries = 3"
    by (elim conjE)
  from t have "fst (handle_unhealthy_deployment env_unhealthy ''app1'' st0) = Failed
        \<longrightarrow> attempts (episode env_unhealthy ''app1'' st0) = max_retries"
    by (elim conjE)
  from mp [OF this f] m have n: "attempts (episode env_unhealthy ''app1'' st0) = 3" by simp
  note u = recovery_episode_bounded [of env_read_fails "''app1''" st0]
  have f': "fst (handle_unhealthy_deployment env_read_fails ''app1'' st0) = Failed"
    by (simp add: run_env_read_fails)
  have a': "api_errors (episode env_read_fails ''app1'' st0) = 3"
    by (simp add: episode_def run_env_read_fails trace_st0 api_errors_def)
  have r': "restarts (episode env_read_fails ''app1'' st0) = 0"
    by (simp add: episode_def run_env_read_fails trace_st0 restarts_def)
  from u have "fst (handle_unhealthy_deployment env_read_fails ''app1'' st0) = Failed
        \<longrightarrow> attempts (episode env_read_fails ''app1'' st0) = max_retries"
    by (elim conjE)
  from mp [OF this f'] have n': "attempts (episode env_read_fails ''app1'' st0) = max_retries" .
  from f a r n f' a' r' n' show ?thesis by (intro conjI)
qed

lemma monitor_env_D_any: "fst (monitor_lfr_health env_D st) = Inr [(''app1'', False)]"
proof -
  have l: "list_namespaced_deployment env_D (world st) = (Returns [dep_D], ())"
    by (simp add: env_D_def)
  have m: "map_of (labels dep_D) ''source'' = Some ''app1''"
    by (simp add: dep_D_def)
  have w: "\<not> workloadHealthy dep_D"
    by (simp add: workloadHealthy_def dep_D_def)
  show ?thesis
    by (simp add: monitor_lfr_health_Returns [OF l] monitor_loop_Cons [OF m] w
          del: monitor_loop.simps(2))
qed

lemma env_D_calls:
  "read_namespaced_deployment env_D n w = (Returns dep_D, w)"
  "patch_namespaced_deployment env_D n b w = (Returns (), w)"
  by (simp_all add: env_D_def quiet_env_def)

lemma run_env_D: "fst (handle_unhealthy_deployment env_D ''app1'' st0) = Healthy"
proof -
  have lt: "0 < max_retries" by (simp add: max_retries_def)
  obtain st2 where c1: "call (ReadDeployment (lfr_name ''app1''))
      (read_namespaced_deployment env_D (lfr_name ''app1'')) (log INFO ''Recovery attempt'' st0)
      = (Returns dep_D, st2)"
    by (simp add: call_eq env_D_calls)
  obtain st3 where c2: "call (PatchNamespacedDeployment (lfr_name ''app1'') PatchRestartedAt)
      (patch_namespaced_deployment env_D (lfr_name ''app1'') PatchRestartedAt) st2 = (Returns (), st3)"
    by (simp add: call_eq env_D_calls)
  from recovery_loop_checked [OF lt c1 c2] check_env_D [of "sleep 10 st3"]
  show ?thesis by (simp add: handle_unhealthy_deployment_def)
qed

text \<open>
  Claim C6 does not hold of the code. In the fourth scenario (three replicas desired, two
  available, every probe healthy) the health evaluation reports the source unhealthy; the
  recovery episode ends at \<open>Healthy\<close> after its first restart, and the health evaluation
  in the state the episode leaves reports the source unhealthy still.
\<close>

theorem recovery_success_counterexample:
  "fst (monitor_lfr_health env_D st0) = Inr [(''app1'', False)]
   \<and> fst (handle_unhealthy_deployment env_D ''app1'' st0) = Healthy
   \<and> fst (monitor_lfr_health env_D (snd (handle_unhealthy_deployment env_D ''app1'' st0)))
       = Inr [(''app1'', False)]"
  using monitor_env_D_any [of st0] run_env_D
    monitor_env_D_any [of "snd (handle_unhealthy_deployment env_D ''app1'' st0)"]
  by (intro conjI)

lemma recovery_loop_healthy:
  "fst (recovery_loop env n rc st) = Healthy \<Longrightarrow>
   \<exists>st3. fst (check_endpoint_health env n (sleep 10 st3))
        \<and> is_restart (last (trace st3))
        \<and> snd (recovery_loop env n rc st) =
            log INFO ''Recovery successful'' (snd (check_endpoint_health env n (sleep 10 st3)))"
proof (induction "max_retries - rc" arbitrary: rc st)
  case 0
  then have "\<not> rc < max_retries" by simp
  from recovery_loop_exhausted [OF this, of env n st] "0.prems" show ?case by simp
next
  case (Suc k)
  then have lt: "rc < max_retries" and k: "k = max_retries - (rc + 1)" by simp_all
  let ?name = "lfr_name n"
  let ?c1 = "call (ReadDeployment ?name) (read_namespaced_deployment env ?name)
               (log INFO ''Recovery attempt'' st)"
  show ?case
  proof (cases "fst (read_namespaced_deployment env ?name (world st))")
    case Raises
    from recovery_loop_read_raises [OF lt Raises] Suc.prems Suc.hyps(1) [OF k]
    show ?thesis by simp
  next
    case (Returns d)
    obtain st2 where c1: "?c1 = (Returns d, st2)"
      using Returns by (cases ?c1) (simp add: call_eq world_log)
    let ?c2 = "call (PatchNamespacedDeployment ?name PatchRestartedAt)
                 (patch_namespaced_deployment env ?name PatchRestartedAt) st2"
    show ?thesis
    proof (cases "fst (patch_namespaced_deployment env ?name PatchRestartedAt (world st2))")
      case Raises
      from recovery_loop_patch_raises [OF lt c1 Raises] Suc.prems Suc.hyps(1) [OF k]
      show ?thesis by simp
    next
      case (Returns u)
      obtain st3 where c2: "?c2 = (Returns u, st3)"
        using Returns by (cases ?c2) (simp add: call_eq)
      then have l: "is_restart (last (trace st3))"
        by (auto simp: call_eq)
      note eq = recovery_loop_checked [OF lt c1 c2]
      show ?thesis
      proof (cases "fst (check_endpoint_health env n (sleep 10 st3))")
        case True
        with eq l show ?thesis by auto
      next
        case False
        with eq Suc.prems Suc.hyps(1) [OF k] show ?thesis by simp
      qed
    qed
  qed
qed

text \<open>
  Claim C6, amended. In an attempt whose read and whose restart patch return, the success
  check that follows the settle delay is the endpoint verdict alone: the episode ends at
  \<open>Healthy\<close> in that attempt when the endpoint verdict of the source is healthy, and
  goes on to the next attempt when it is not. An episode that ends at \<open>Healthy\<close> ends
  right after such a check, made after a restart patch. The deployments are never listed
  during an episode: the workload verdict is not evaluated again.
\<close>

theorem recovery_success_is_endpoint_check:
  "(rc < max_retries
      \<and> call (ReadDeployment (lfr_name n)) (read_namespaced_deployment env (lfr_name n))
            (log INFO ''Recovery attempt'' st) = (Returns d, st2)
      \<and> call (PatchNamespacedDeployment (lfr_name n) PatchRestartedAt)
            (patch_namespaced_deployment env (lfr_name n) PatchRestartedAt) st2 = (Returns u, st3)
     \<longrightarrow> recovery_loop env n rc st =
           (if endpointHealthy env n (world st3)
            then (Healthy, log INFO ''Recovery successful''
                    (snd (check_endpoint_health env n (sleep 10 st3))))
            else recovery_loop env n (rc + 1)
                   (sleep 5 (snd (check_endpoint_health env n (sleep 10 st3))))))
   \<and> (fst (handle_unhealthy_deployment env n st) = Healthy
        \<longrightarrow> (\<exists>s. is_restart (last (trace s)) \<and> endpointHealthy env n (world s)
               \<and> snd (handle_unhealthy_deployment env n st) =
                   log INFO ''Recovery successful'' (snd (check_endpoint_health env n (sleep 10 s)))))
   \<and> ListDeployment \<notin> set (episode env n st)"
proof (intro conjI impI)
  assume a: "rc < max_retries
      \<and> call (ReadDeployment (lfr_name n)) (read_namespaced_deployment env (lfr_name n))
            (log INFO ''Recovery attempt'' st) = (Returns d, st2)
      \<and> call (PatchNamespacedDeployment (lfr_name n) PatchRestartedAt)
            (patch_namespaced_deployment env (lfr_name n) PatchRestartedAt) st2 = (Returns u, st3)"
  then have lt: "rc < max_retries"
    and c1: "call (ReadDeployment (lfr_name n)) (read_namespaced_deployment env (lfr_name n))
            (log INFO ''Recovery attempt'' st) = (Returns d, st2)"
    and c2: "call (PatchNamespacedDeployment (lfr_name n) PatchRestartedAt)
            (patch_namespaced_deployment env (lfr_name n) PatchRestartedAt) st2 = (Returns u, st3)"
    by simp_all
  have "fst (check_endpoint_health env n (sleep 10 st3)) = endpointHealthy env n (world st3)"
    by (simp add: check_endpoint_health_spec world_sleep)
  with recovery_loop_checked [OF lt c1 c2]
  show "recovery_loop env n rc st =
           (if endpointHealthy env n (world st3)
            then (Healthy, log INFO ''Recovery successful''
                    (snd (check_endpoint_health env n (sleep 10 st3))))
            else recovery_loop env n (rc + 1)
                   (sleep 5 (snd (check_endpoint_health env n (sleep 10 st3)))))"
    by simp
next
  assume "fst (handle_unhealthy_deployment env n st) = Healthy"
  then have "fst (recovery_loop env n 0 st) = Healthy"
    by (simp add: handle_unhealthy_deployment_def)
  from recovery_loop_healthy [OF this] obtain s where
    s: "fst (check_endpoint_health env n (sleep 10 s))" "is_restart (last (trace s))"
      "snd (recovery_loop env n 0 st) =
         log INFO ''Recovery successful'' (snd (check_endpoint_health env n (sleep 10 s)))"
    by blast
  from s(1) have "endpointHealthy env n (world s)"
    by (simp add: check_endpoint_health_spec world_sleep)
  with s(2,3)
  show "\<exists>s. is_restart (last (trace s)) \<and> endpointHealthy env n (world s)
               \<and> snd (handle_unhealthy_deployment env n st) =
                   log INFO ''Recovery successful'' (snd (check_endpoint_health env n (sleep 10 s)))"
    by (auto simp: handle_unhealthy_deployment_def)
next
  from recovery_loop_trace [of env n 0 st] obtain evs where
    "trace (snd (recovery_loop env n 0 st)) = trace st @ evs" "ListDeployment \<notin> set evs"
    by blast
  then show "ListDeployment \<notin> set (episode env n st)"
    by (simp add: episode_def handle_unhealthy_deployment_def)
qed

text \<open>
  In the fourth scenario the first attempt reads and patches, the endpoint verdict is
  healthy and the workload verdict is not: the episode ends at \<open>Healthy\<close>.
\<close>

theorem recovery_success_is_endpoint_check_witness:
  "0 < max_retries
   \<and> endpointHealthy env_D ''app1'' ()
   \<and> \<not> workloadHealthy dep_D
   \<and> recovery_loop env_D ''app1'' 0 st0 =
       (Healthy, log INFO ''Recovery successful''
          (snd (check_endpoint_health env_D ''app1''
             (sleep 10 (snd (call (PatchNamespacedDeployment (lfr_name ''app1'') PatchRestartedAt)
                (patch_namespaced_deployment env_D (lfr_name ''app1'') PatchRestartedAt)
                (snd (call (ReadDeployment (lfr_name ''app1''))
                   (read_namespaced_deployment env_D (lfr_name ''app1''))
                   (log INFO ''Recovery attempt'' st0)))))))))"
proof -
  let ?st2 = "snd (call (ReadDeployment (lfr_name ''app1''))
                   (read_namespaced_deployment env_D (lfr_name ''app1''))
                   (log INFO ''Recovery attempt'' st0))"
  let ?st3 = "snd (call (PatchNamespacedDeployment (lfr_name ''app1'') PatchRestartedAt)
                (patch_namespaced_deployment env_D (lfr_name ''app1'') PatchRestartedAt) ?st2)"
  have lt: "0 < max_retries" by (simp add: max_retries_def)
  have c1: "call (ReadDeployment (lfr_name ''app1''))
                   (read_namespaced_deployment env_D (lfr_name ''app1''))
                   (log INFO ''Recovery attempt'' st0) = (Returns dep_D, ?st2)"
    by (simp add: call_eq env_D_calls)
  have c2: "call (PatchNamespacedDeployment (lfr_name ''app1'') PatchRestartedAt)
                (patch_namespaced_deployment env_D (lfr_name ''app1'') PatchRestartedAt) ?st2
              = (Returns (), ?st3)"
    by (simp add: call_eq env_D_calls)
  have e: "endpointHealthy env_D ''app1'' ()"
    using check_env_D [of st0] by (simp add: check_endpoint_health_spec)
  then have e': "endpointHealthy env_D ''app1'' (world ?st3)" by simp
  have w: "\<not> workloadHealthy dep_D"
    by (simp add: workloadHealthy_def dep_D_def)
  note t = conjunct1 [OF recovery_success_is_endpoint_check
             [of 0 "''app1''" env_D st0 dep_D ?st2 "()" ?st3]]
  from mp [OF t conjI [OF lt conjI [OF c1 c2]]] e'
  have "recovery_loop env_D ''app1'' 0 st0 =
       (Healthy, log INFO ''Recovery successful''
          (snd (check_endpoint_health env_D ''app1'' (sleep 10 ?st3))))"
    by (simp only: if_True)
  with lt e w show ?thesis by (intro conjI)
qed

section \<open>A failure of the cluster in the reconciliation loop\<close>

lemma reconcile_loop_append:
  "reconcile_loop env cs (pre @ post) st =
     (case reconcile_loop env cs pre st of
        (Inl e, st1) \<Rightarrow> (Inl e, st1)
      | (Inr u, st1) \<Rightarrow> reconcile_loop env cs post st1)"
  by (induction pre arbitrary: st) (auto simp: Let_def split: prod.splits sum.splits)

lemma create_raises:
  "fst (create_namespaced_deployment env
          \<lparr>body_name = lfr_name n, body_replicas = r, body_source = n\<rparr> (world st)) = Raises \<Longrightarrow>
   create_lfr_deployment env n r st =
     (Inl ApiException, log ERROR ''Failed to create deployment''
        (snd (call (CreateDeployment \<lparr>body_name = lfr_name n, body_replicas = r, body_source = n\<rparr>)
                (create_namespaced_deployment env
                   \<lparr>body_name = lfr_name n, body_replicas = r, body_source = n\<rparr>) st)))"
  by (simp add: create_lfr_deployment_def Let_def call_eq split: prod.splits outcome.splits)

lemma delete_raises:
  "fst (delete_namespaced_deployment env (lfr_name n) (world st)) = Raises \<Longrightarrow>
   delete_lfr_deployment env n st =
     (Inl ApiException, log ERROR ''Failed to delete deployment''
        (snd (call (DeleteDeployment (lfr_name n)) (delete_namespaced_deployment env (lfr_name n)) st)))"
  by (simp add: delete_lfr_deployment_def call_eq split: prod.splits outcome.splits)

lemma scale_read_raises:
  "fst (read_namespaced_deployment env (lfr_name n) (world st)) = Raises \<Longrightarrow>
   scale_lfr_deployment env n r st =
     (Inl ApiException, log ERROR ''Failed to scale deployment''
        (snd (call (ReadDeployment (lfr_name n)) (read_namespaced_deployment env (lfr_name n)) st)))"
  by (simp add: scale_lfr_deployment_def call_eq split: prod.splits outcome.splits)

lemma scale_patch_raises:
  "call (ReadDeployment (lfr_name n)) (read_namespaced_deployment env (lfr_name n)) st = (Returns d, st1) \<Longrightarrow>
   fst (patch_namespaced_deployment env (lfr_name n) (PatchDeployment (d\<lparr>replicas := r\<rparr>)) (world st1)) = Raises \<Longrightarrow>
   scale_lfr_deployment env n r st =
     (Inl ApiException, log ERROR ''Failed to scale deployment''
        (snd (call (PatchNamespacedDeployment (lfr_name n) (PatchDeployment (d\<lparr>replicas := r\<rparr>)))
                (patch_namespaced_deployment env (lfr_name n) (PatchDeployment (d\<lparr>replicas := r\<rparr>))) st1)))"
  by (simp add: scale_lfr_deployment_def Let_def call_eq split: prod.splits outcome.splits)

lemma cycle_body_reconcile_raises:
  assumes "list_namespaced_deployment env (world st) = (Returns ds, w1)"
      and "current_sources_of ds [] = Inr cs"
      and "reconcile_loop env cs srcs
             (emit (SetDeploymentCount (length cs))
                \<lparr>world = w1, trace = trace st @ [ListDeployment]\<rparr>) = (Inl e, st3)"
  shows "manage_lfr_instances_cycle env (Inr srcs) st =
           sleep 60 (log ERROR ''Error in control loop'' st3)"
  using assms
  by (simp add: manage_lfr_instances_cycle_def cycle_body_def call_eq del: reconcile_loop.simps)

lemma env_create_fails_calls:
  "list_namespaced_deployment env_create_fails w = (Returns [], w)"
  "create_namespaced_deployment env_create_fails body w =
     (if body_source body = ''app1'' then Raises else Returns (), w)"
  by (simp_all add: env_create_fails_def quiet_env_def)

lemma env_delete_fails_calls:
  "list_namespaced_deployment env_delete_fails w = (Returns [dep2], w)"
  "create_namespaced_deployment env_delete_fails body w = (Returns (), w)"
  "delete_namespaced_deployment env_delete_fails n w =
     (if n = ''lfr-app2'' then Raises else Returns (), w)"
  by (simp_all add: env_delete_fails_def quiet_env_def)

text \<open>
  Claim C5 does not hold of the code. The sources \<open>app1\<close> and \<open>app3\<close> are enabled and
  not observed, so that the rule table creates both. When the cluster refuses to create
  the deployment of \<open>app1\<close>, the cycle logs the failure twice and sleeps sixty seconds:
  the deployment of \<open>app3\<close> is not created, and the health of the deployments is not
  evaluated.
\<close>

theorem api_failure_counterexample:
  "reconcile (\<lambda>n. False) (\<lambda>n. 0) [app1, app3] [] = [Create ''app1'' 2, Create ''app3'' 1]
   \<and> trace (manage_lfr_instances_cycle env_create_fails (Inr [app1, app3]) st0) =
       [ListDeployment, SetDeploymentCount 0,
        CreateDeployment \<lparr>body_name = ''lfr-app1'', body_replicas = 2, body_source = ''app1''\<rparr>,
        Log ERROR ''Failed to create deployment'',
        Log ERROR ''Error in control loop'', Sleep 60]"
proof -
  have a: "reconcile (\<lambda>n. False) (\<lambda>n. 0) [app1, app3] [] = [Create ''app1'' 2, Create ''app3'' 1]"
    by (simp add: reconcile_def rule_table_def app1_def app3_def is_key_def)
  have c: "trace (manage_lfr_instances_cycle env_create_fails (Inr [app1, app3]) st0) =
       [ListDeployment, SetDeploymentCount 0,
        CreateDeployment \<lparr>body_name = ''lfr-app1'', body_replicas = 2, body_source = ''app1''\<rparr>,
        Log ERROR ''Failed to create deployment'',
        Log ERROR ''Error in control loop'', Sleep 60]"
    by (simp add: manage_lfr_instances_cycle_def cycle_body_def call_eq env_create_fails_calls
          create_lfr_deployment_def Let_def lfr_name_def app1_def is_key_def
          trace_sleep trace_log trace_emit trace_st0)
  from a c show ?thesis by (rule conjI)
qed

text \<open>
  Claim C5, amended. Let the loop over the sources reach a source after the sources
  before it were handled normally. When the source is enabled and not observed and the
  cluster refuses to create its deployment, or when it is disabled and observed and the
  cluster refuses to delete its deployment, the method logs the failure and raises it
  again, and the cycle ends there: the sources that follow are not looked at, whatever
  they are, the health of the deployments is not evaluated, and the control loop logs the
  error and sleeps sixty seconds. \<open>scale_lfr_deployment\<close> logs and raises again in the
  same way when the cluster refuses to read or to patch the deployment.
\<close>

theorem api_failure_aborts_cycle:
  assumes "list_namespaced_deployment env (world st) = (Returns ds, w1)"
      and "current_sources_of ds [] = Inr cs"
      and "reconcile_loop env cs pre
             (emit (SetDeploymentCount (length cs))
                \<lparr>world = w1, trace = trace st @ [ListDeployment]\<rparr>) = (Inr (), st2)"
  shows "(enabled s \<and> \<not> is_key (name s) cs
          \<and> fst (create_namespaced_deployment env
                   \<lparr>body_name = lfr_name (name s), body_replicas = instances_min s,
                      body_source = name s\<rparr> (world st2)) = Raises
          \<longrightarrow> manage_lfr_instances_cycle env (Inr (pre @ s # post)) st =
                sleep 60 (log ERROR ''Error in control loop''
                  (log ERROR ''Failed to create deployment''
                    (snd (call (CreateDeployment
                                  \<lparr>body_name = lfr_name (name s), body_replicas = instances_min s,
                                     body_source = name s\<rparr>)
                            (create_namespaced_deployment env
                               \<lparr>body_name = lfr_name (name s), body_replicas = instances_min s,
                                  body_source = name s\<rparr>) st2)))))
       \<and> (\<not> enabled s \<and> is_key (name s) cs
          \<and> fst (delete_namespaced_deployment env (lfr_name (name s)) (world st2)) = Raises
          \<longrightarrow> manage_lfr_instances_cycle env (Inr (pre @ s # post)) st =
                sleep 60 (log ERROR ''Error in control loop''
                  (log ERROR ''Failed to delete deployment''
                    (snd (call (DeleteDeployment (lfr_name (name s)))
                            (delete_namespaced_deployment env (lfr_name (name s))) st2)))))
       \<and> (fst (read_namespaced_deployment env (lfr_name n) (world st3)) = Raises
          \<longrightarrow> scale_lfr_deployment env n r st3 =
                (Inl ApiException, log ERROR ''Failed to scale deployment''
                   (snd (call (ReadDeployment (lfr_name n))
                           (read_namespaced_deployment env (lfr_name n)) st3))))
       \<and> (call (ReadDeployment (lfr_name n)) (read_namespaced_deployment env (lfr_name n)) st3
            = (Returns d, st4)
          \<and> fst (patch_namespaced_deployment env (lfr_name n)
                   (PatchDeployment (d\<lparr>replicas := r\<rparr>)) (world st4)) = Raises
          \<longrightarrow> scale_lfr_deployment env n r st3 =
                (Inl ApiException, log ERROR ''Failed to scale deployment''
                   (snd (call (PatchNamespacedDeployment (lfr_name n) (PatchDeployment (d\<lparr>replicas := r\<rparr>)))
                           (patch_namespaced_deployment env (lfr_name n)
                              (PatchDeployment (d\<lparr>replicas := r\<rparr>))) st4))))"
proof (intro conjI impI)
  let ?st1 = "emit (SetDeploymentCount (length cs)) \<lparr>world = w1, trace = trace st @ [ListDeployment]\<rparr>"
  let ?body = "\<lparr>body_name = lfr_name (name s), body_replicas = instances_min s, body_source = name s\<rparr>"
  assume a: "enabled s \<and> \<not> is_key (name s) cs
          \<and> fst (create_namespaced_deployment env ?body (world st2)) = Raises"
  then have "create_lfr_deployment env (name s) (instances_min s) st2 =
     (Inl ApiException, log ERROR ''Failed to create deployment''
        (snd (call (CreateDeployment ?body) (create_namespaced_deployment env ?body) st2)))"
    by (intro create_raises) simp
  with a have "reconcile_loop env cs (s # post) st2 =
     (Inl ApiException, log ERROR ''Failed to create deployment''
        (snd (call (CreateDeployment ?body) (create_namespaced_deployment env ?body) st2)))"
    by (simp add: Let_def)
  with assms(3) have "reconcile_loop env cs (pre @ s # post) ?st1 =
     (Inl ApiException, log ERROR ''Failed to create deployment''
        (snd (call (CreateDeployment ?body) (create_namespaced_deployment env ?body) st2)))"
    by (simp only: reconcile_loop_append prod.case sum.case)
  from cycle_body_reconcile_raises [OF assms(1,2) this]
  show "manage_lfr_instances_cycle env (Inr (pre @ s # post)) st =
                sleep 60 (log ERROR ''Error in control loop''
                  (log ERROR ''Failed to create deployment''
                    (snd (call (CreateDeployment ?body) (create_namespaced_deployment env ?body) st2))))" .
next
  let ?st1 = "emit (SetDeploymentCount (length cs)) \<lparr>world = w1, trace = trace st @ [ListDeployment]\<rparr>"
  assume a: "\<not> enabled s \<and> is_key (name s) cs
          \<and> fst (delete_namespaced_deployment env (lfr_name (name s)) (world st2)) = Raises"
  then have "delete_lfr_deployment env (name s) st2 =
     (Inl ApiException, log ERROR ''Failed to delete deployment''
        (snd (call (DeleteDeployment (lfr_name (name s)))
                (delete_namespaced_deployment env (lfr_name (name s))) st2)))"
    by (intro delete_raises) simp
  with a have "reconcile_loop env cs (s # post) st2 =
     (Inl ApiException, log ERROR ''Failed to delete deployment''
        (snd (call (DeleteDeployment (lfr_name (name s)))
                (delete_namespaced_deployment env (lfr_name (name s))) st2)))"
    by (simp add: Let_def)
  with assms(3) have "reconcile_loop env cs (pre @ s # post) ?st1 =
     (Inl ApiException, log ERROR ''Failed to delete deployment''
        (snd (call (DeleteDeployment (lfr_name (name s)))
                (delete_namespaced_deployment env (lfr_name (name s))) st2)))"
    by (simp only: reconcile_loop_append prod.case sum.case)
  from cycle_body_reconcile_raises [OF assms(1,2) this]
  show "manage_lfr_instances_cycle env (Inr (pre @ s # post)) st =
                sleep 60 (log ERROR ''Error in control loop''
                  (log ERROR ''Failed to delete deployment''
                    (snd (call (DeleteDeployment (lfr_name (name s)))
                            (delete_namespaced_deployment env (lfr_name (name s))) st2))))" .
next
  assume "fst (read_namespaced_deployment env (lfr_name n) (world st3)) = Raises"
  then show "scale_lfr_deployment env n r st3 =
                (Inl ApiException, log ERROR ''Failed to scale deployment''
                   (snd (call (ReadDeployment (lfr_name n))
                           (read_namespaced_deployment env (lfr_name n)) st3)))"
    by (rule scale_read_raises)
next
  assume "call (ReadDeployment (lfr_name n)) (read_namespaced_deployment env (lfr_name n)) st3
            = (Returns d, st4)
          \<and> fst (patch_namespaced_deployment env (lfr_name n)
                   (PatchDeployment (d\<lparr>replicas := r\<rparr>)) (world st4)) = Raises"
  then show "scale_lfr_deployment env n r st3 =
                (Inl ApiException, log ERROR ''Failed to scale deployment''
                   (snd (call (PatchNamespacedDeployment (lfr_name n) (PatchDeployment (d\<lparr>replicas := r\<rparr>)))
                           (patch_namespaced_deployment env (lfr_name n)
                              (PatchDeployment (d\<lparr>replicas := r\<rparr>))) st4)))"
    by (intro scale_patch_raises) simp_all
qed

text \<open>
  The cluster refuses to create the deployment of \<open>app1\<close>, the first source: \<open>app3\<close>,
  which follows, is not created. The cluster refuses to delete the deployment of \<open>app2\<close>
  after the deployment of \<open>app1\<close> was created: \<open>app3\<close>, which follows, is not created.
\<close>

theorem api_failure_aborts_cycle_witness:
  "enabled app1 \<and> \<not> is_key (name app1) ([] :: (string \<times> deployment) list)
   \<and> trace (manage_lfr_instances_cycle env_create_fails (Inr ([] @ app1 # [app3])) st0) =
       [ListDeployment, SetDeploymentCount 0,
        CreateDeployment \<lparr>body_name = ''lfr-app1'', body_replicas = 2, body_source = ''app1''\<rparr>,
        Log ERROR ''Failed to create deployment'',
        Log ERROR ''Error in control loop'', Sleep 60]
   \<and> \<not> enabled app2 \<and> is_key (name app2) [(''app2'', dep2)]
   \<and> trace (manage_lfr_instances_cycle env_delete_fails (Inr ([app1] @ app2 # [app3])) st0) =
       [ListDeployment, SetDeploymentCount 1,
        CreateDeployment \<lparr>body_name = ''lfr-app1'', body_replicas = 2, body_source = ''app1''\<rparr>,
        Log INFO ''Created LFR deployment for source'',
        DeleteDeployment ''lfr-app2'',
        Log ERROR ''Failed to delete deployment'',
        Log ERROR ''Error in control loop'', Sleep 60]"
proof -
  let ?s1 = "\<lparr>world = (), trace = [ListDeployment, SetDeploymentCount 0]\<rparr> :: unit state"
  have l1: "list_namespaced_deployment env_create_fails (world st0) = (Returns [], ())"
    by (simp add: env_create_fails_calls)
  have c1: "current_sources_of [] [] = (Inr [] :: py_error + (string \<times> deployment) list)"
    by simp
  have r1: "reconcile_loop env_create_fails [] []
             (emit (SetDeploymentCount (length ([] :: (string \<times> deployment) list)))
                \<lparr>world = (), trace = trace st0 @ [ListDeployment]\<rparr>) = (Inr (), ?s1)"
    by (simp add: emit_def trace_st0)
  have p1: "enabled app1 \<and> \<not> is_key (name app1) ([] :: (string \<times> deployment) list)
          \<and> fst (create_namespaced_deployment env_create_fails
                   \<lparr>body_name = lfr_name (name app1), body_replicas = instances_min app1,
                      body_source = name app1\<rparr> (world ?s1)) = Raises"
    by (simp add: app1_def is_key_def env_create_fails_calls)
  note t1 = api_failure_aborts_cycle [OF l1 c1 r1, where s = app1 and post = "[app3]"]
  from mp [OF conjunct1 [OF t1] p1]
  have a: "trace (manage_lfr_instances_cycle env_create_fails (Inr ([] @ app1 # [app3])) st0) =
       [ListDeployment, SetDeploymentCount 0,
        CreateDeployment \<lparr>body_name = ''lfr-app1'', body_replicas = 2, body_source = ''app1''\<rparr>,
        Log ERROR ''Failed to create deployment'',
        Log ERROR ''Error in control loop'', Sleep 60]"
    by (simp add: trace_sleep trace_log trace_call lfr_name_def app1_def)
  let ?s2 = "\<lparr>world = (), trace = [ListDeployment, SetDeploymentCount 1,
        CreateDeployment \<lparr>body_name = ''lfr-app1'', body_replicas = 2, body_source = ''app1''\<rparr>,
        Log INFO ''Created LFR deployment for source'']\<rparr> :: unit state"
  have l2: "list_namespaced_deployment env_delete_fails (world st0) = (Returns [dep2], ())"
    by (simp add: env_delete_fails_calls)
  have c2: "current_sources_of [dep2] [] = Inr [(''app2'', dep2)]"
    by (simp add: dep2_def)
  have r2: "reconcile_loop env_delete_fails [(''app2'', dep2)] [app1]
             (emit (SetDeploymentCount (length [(''app2'', dep2)]))
                \<lparr>world = (), trace = trace st0 @ [ListDeployment]\<rparr>) = (Inr (), ?s2)"
    by (simp add: emit_def trace_st0 app1_def is_key_def create_lfr_deployment_def Let_def
          call_eq env_delete_fails_calls lfr_name_def log_def)
  have p2: "\<not> enabled app2 \<and> is_key (name app2) [(''app2'', dep2)]
          \<and> fst (delete_namespaced_deployment env_delete_fails (lfr_name (name app2)) (world ?s2)) = Raises"
    by (simp add: app2_def is_key_def env_delete_fails_calls lfr_name_def)
  note t2 = api_failure_aborts_cycle [OF l2 c2 r2, where s = app2 and post = "[app3]"]
  from mp [OF conjunct1 [OF conjunct2 [OF t2]] p2]
  have b: "trace (manage_lfr_instances_cycle env_delete_fails (Inr ([app1] @ app2 # [app3])) st0) =
       [ListDeployment, SetDeploymentCount 1,
        CreateDeployment \<lparr>body_name = ''lfr-app1'', body_replicas = 2, body_source = ''app1''\<rparr>,
        Log INFO ''Created LFR deployment for source'',
        DeleteDeployment ''lfr-app2'',
        Log ERROR ''Failed to delete deployment'',
        Log ERROR ''Error in control loop'', Sleep 60]"
    by (simp add: trace_sleep trace_log trace_call lfr_name_def app2_def)
  from p1 a p2 b show ?thesis by (intro conjI) simp_all
qed

section \<open>Properties of the loading of the configuration\<close>

lemma validate_config_cases:
  "validate_config config st =
     (if \<not> is_key ''kubernetes'' config then
        (Inl (ValueError ''Missing required field: kubernetes''), log ERROR ''Missing required field'' st)
      else if \<not> is_key ''log_sources'' config then
        (Inl (ValueError ''Missing required field: log_sources''), log ERROR ''Missing required field'' st)
      else (Inr (), st))"
  by (simp add: validate_config_def required_fields_def)

lemma load_config_Document:
  "load_config (Document config) st =
     (if \<not> is_key ''kubernetes'' config then
        (Inl (ValueError ''Missing required field: kubernetes''), log ERROR ''Missing required field'' st)
      else if \<not> is_key ''log_sources'' config then
        (Inl (ValueError ''Missing required field: log_sources''), log ERROR ''Missing required field'' st)
      else (Inr config, st))"
  by (simp add: load_config_def validate_config_cases)

text \<open>
  Claim C8 does not hold of the code. A document with the fields \<^verbatim>\<open>namespace\<close> and
  \<^verbatim>\<open>log_sources\<close> fails to load, with a \<open>ValueError\<close> for the field \<^verbatim>\<open>kubernetes\<close>. A
  document with \<^verbatim>\<open>kubernetes\<close> and \<^verbatim>\<open>log_sources\<close> and no namespace loads without
  error; the constructor then raises \<open>KeyError\<close>, not \<open>ValueError\<close>.
\<close>

theorem load_config_counterexample:
  "is_key ''namespace'' doc_namespace \<and> is_key ''log_sources'' doc_namespace
   \<and> fst (load_config (Document doc_namespace) st0) =
       Inl (ValueError ''Missing required field: kubernetes'')
   \<and> \<not> is_key ''namespace'' doc_kubernetes
   \<and> subscript (YDict []) ''namespace'' = Inl (KeyError ''namespace'')
   \<and> fst (load_config (Document doc_kubernetes) st0) = Inr doc_kubernetes
   \<and> fst (init (Document doc_kubernetes) st0) = Inl (KeyError ''namespace'')"
  by (simp add: load_config_Document init_def doc_namespace_def doc_kubernetes_def is_key_def)

text \<open>
  Claim C8, amended. Loading a document raises \<open>ValueError\<close> exactly when the field
  \<^verbatim>\<open>kubernetes\<close> or the field \<^verbatim>\<open>log_sources\<close> is missing at its top level, with the
  name of the first missing field in the message; a document with both fields loads
  unchanged and nothing is logged. The constructor passes the error of the loading on.
\<close>

theorem load_config_required_fields:
  "((\<exists>msg. fst (load_config (Document config) st) = Inl (ValueError msg))
      \<longleftrightarrow> (\<not> is_key ''kubernetes'' config \<or> \<not> is_key ''log_sources'' config))
   \<and> (is_key ''kubernetes'' config \<and> is_key ''log_sources'' config
        \<longrightarrow> load_config (Document config) st = (Inr config, st))
   \<and> (\<not> is_key ''kubernetes'' config
        \<longrightarrow> fst (load_config (Document config) st) =
              Inl (ValueError ''Missing required field: kubernetes''))
   \<and> (is_key ''kubernetes'' config \<and> \<not> is_key ''log_sources'' config
        \<longrightarrow> fst (load_config (Document config) st) =
              Inl (ValueError ''Missing required field: log_sources''))
   \<and> (\<forall>e. fst (load_config (Document config) st) = Inl e
        \<longrightarrow> fst (init (Document config) st) = Inl e)"
  by (auto simp: load_config_Document init_def)

theorem load_config_required_fields_witness:
  "is_key ''kubernetes'' doc_kubernetes \<and> is_key ''log_sources'' doc_kubernetes
   \<and> load_config (Document doc_kubernetes) st0 = (Inr doc_kubernetes, st0)
   \<and> \<not> is_key ''kubernetes'' doc_namespace
   \<and> fst (load_config (Document doc_namespace) st0) =
       Inl (ValueError ''Missing required field: kubernetes'')
   \<and> fst (init (Document doc_namespace) st0) =
       Inl (ValueError ''Missing required field: kubernetes'')"
proof -
  have k: "is_key ''kubernetes'' doc_kubernetes \<and> is_key ''log_sources'' doc_kubernetes"
    by (simp add: doc_kubernetes_def is_key_def)
  note t = load_config_required_fields [of doc_kubernetes st0]
  from mp [OF conjunct1 [OF conjunct2 [OF t]] k]
  have a: "load_config (Document doc_kubernetes) st0 = (Inr doc_kubernetes, st0)" .
  have n: "\<not> is_key ''kubernetes'' doc_namespace"
    by (simp add: doc_namespace_def is_key_def)
  note u = load_config_required_fields [of doc_namespace st0]
  from mp [OF conjunct1 [OF conjunct2 [OF conjunct2 [OF u]]] n]
  have b: "fst (load_config (Document doc_namespace) st0) =
       Inl (ValueError ''Missing required field: kubernetes'')" .
  from conjunct2 [OF conjunct2 [OF conjunct2 [OF conjunct2 [OF u]]]]
  have "fst (load_config (Document doc_namespace) st0) =
          Inl (ValueError ''Missing required field: kubernetes'')
        \<longrightarrow> fst (init (Document doc_namespace) st0) =
          Inl (ValueError ''Missing required field: kubernetes'')"
    by (rule spec)
  from mp [OF this b] have c: "fst (init (Document doc_namespace) st0) =
       Inl (ValueError ''Missing required field: kubernetes'')" .
  from k a n b c show ?thesis by (intro conjI) simp_all
qed

end
